theory Spec2Isabelle
  imports Complex_Main
begin

section \<open>The activation reader of \<open>rnnalyse/activations/activation_reader.py\<close>\<close>

text \<open>
  The class \<open>ActivationReader\<close> keeps four lazily filled caches (the activation matrix,
  the labels, the number of labels and the range table) and the name of the activation
  that is currently loaded. Every method is modelled as a function from the reader's state
  to a result and the state after the call; a raised exception is the result \<open>Inl e\<close>,
  and the state that comes with it is the state at the moment of the raise.
\<close>

subsection \<open>Values\<close>

datatype error =
  KeyError | AssertionError | IndexError | ValueError | TypeError | FileNotFoundError

text \<open>\<open>ActivationName = Tuple[int, str]\<close>, \<open>Range = Tuple[int, int]\<close>.\<close>

type_synonym activation_name = "int \<times> string"
type_synonym range = "int \<times> int"

text \<open>
  \<open>ActivationRanges = Dict[int, Range]\<close>. A Python dict iterates in insertion order,
  so the table is the list of its items in that order; the keys of a dict are distinct.
\<close>

type_synonym activation_ranges = "(int \<times> range) list"

text \<open>
  A two-dimensional array: its second dimension \<open>shape1\<close> and its rows. The elements
  are opaque values of the array's dtype.
\<close>

record 'a ndarray =
  shape1 :: nat
  rows :: "'a list list"

text \<open>A \<open>slice(start, stop, step)\<close> object; \<open>None\<close> is an absent bound.\<close>

datatype py_slice = Slice "int option" "int option" "int option"

text \<open>
  The index part of a key: an int, or a slice or list (numpy array) of ints. After
  \<open>_parse_key\<close> only the last two remain.
\<close>

datatype seq_index = SliceIndex py_slice | ListIndex "int list"

datatype index = IntIndex int | SeqIndex seq_index

text \<open>
  The further members of a tuple key: a string (an index type) or an activation name.
\<close>

datatype key_arg = StrArg string | NameArg activation_name

datatype activation_key = Plain index | Tuple index "key_arg list"

text \<open>\<open>DataDict\<close>, the dictionary returned by \<open>create_data_split\<close>.\<close>

record ('a, 'l) data_dict =
  train_x :: "'a ndarray"
  train_y :: "'l list"
  test_x :: "'a ndarray"
  test_y :: "'l list"

subsection \<open>What the reader finds outside itself\<close>

text \<open>
  The pickle files of the activations directory, and the three library operations whose
  result is not a function of the program's values: the contents of the memory that
  \<open>np.empty\<close> hands out, the sample drawn by \<open>np.random.choice\<close>, and the rounded
  product of two floats. \<open>load_pickle\<close> is not part of the source file; its results
  are the fields \<open>labels_pickle\<close> and \<open>ranges_pickle\<close>. A file of activations is a
  series of pickle dumps, or absent.
\<close>

record ('a, 'l) world =
  labels_pickle :: "'l list"
  ranges_pickle :: activation_ranges
  activations_pickle :: "activation_name \<Rightarrow> 'a ndarray list option"
  uninitialised :: "nat \<Rightarrow> nat \<Rightarrow> 'a"
  astype_float32 :: "'a \<Rightarrow> 'a"
  random_choice :: "int \<Rightarrow> error + int list"
  float_mul :: "real \<Rightarrow> real \<Rightarrow> real"

datatype pickle_file = LabelsFile | RangesFile | ActivationsFile activation_name

text \<open>
  The attributes of the reader (\<open>p_x\<close> stands for the attribute \<open>_x\<close>), and the files
  it has opened so far, in order.
\<close>

record ('a, 'l) reader =
  p_activations :: "'a ndarray option"
  p_labels :: "'l list option"
  p_data_len :: int
  p_activation_ranges :: "activation_ranges option"
  activation_name :: "activation_name option"
  opened :: "pickle_file list"

subsection \<open>Python and numpy operations used by the reader\<close>

text \<open>\<open>range(mi, ma)\<close> and \<open>range(a, b, c)\<close> for a step \<open>c\<close> other than 0.\<close>

definition py_range2 :: "int \<Rightarrow> int \<Rightarrow> int list" where
  "py_range2 mi ma = [mi..ma - 1]"

definition py_range3 :: "int \<Rightarrow> int \<Rightarrow> int \<Rightarrow> int list" where
  "py_range3 a b c =
     (if 0 < c then
        (if a < b then map (\<lambda>j. a + int j * c) [0..<nat ((b - a - 1) div c + 1)] else [])
      else if c < 0 then
        (if b < a then map (\<lambda>j. a + int j * c) [0..<nat ((a - b - 1) div (- c) + 1)] else [])
      else [])"

text \<open>
  \<open>slice.indices(length)\<close>: the start, stop and step a slice stands for on a sequence
  of the given length. A step of 0 is a \<open>ValueError\<close>.
\<close>

definition adjust_bound :: "int \<Rightarrow> int \<Rightarrow> int \<Rightarrow> int \<Rightarrow> int" where
  "adjust_bound len lower upper b =
     (if b < 0 then max (b + len) lower else min b upper)"

definition slice_indices :: "py_slice \<Rightarrow> nat \<Rightarrow> error + (int \<times> int \<times> int)" where
  "slice_indices sl n =
     (case sl of Slice a b c \<Rightarrow>
        (let st = (case c of None \<Rightarrow> 1 | Some s \<Rightarrow> s) in
         if st = 0 then Inl ValueError
         else
           (let len = int n;
                lower = (if st < 0 then - 1 else 0);
                upper = (if st < 0 then len - 1 else len);
                start = (case a of None \<Rightarrow> (if st < 0 then upper else lower)
                         | Some s \<Rightarrow> adjust_bound len lower upper s);
                stop = (case b of None \<Rightarrow> (if st < 0 then lower else upper)
                        | Some s \<Rightarrow> adjust_bound len lower upper s)
            in Inr (start, stop, st))))"

text \<open>\<open>xs[sl]\<close> for a slice, on the first axis of an array.\<close>

definition np_slice :: "'x list \<Rightarrow> py_slice \<Rightarrow> error + 'x list" where
  "np_slice xs sl =
     (case slice_indices sl (length xs) of
        Inl e \<Rightarrow> Inl e
      | Inr (a, b, c) \<Rightarrow> Inr (map (\<lambda>i. xs ! nat i) (py_range3 a b c)))"

text \<open>
  \<open>xs[is]\<close> for a list or array of ints, on the first axis: every index lies in
  \<open>[-len, len)\<close>, a negative one counts from the end, any other is an \<open>IndexError\<close>.
\<close>

definition in_bounds :: "nat \<Rightarrow> int \<Rightarrow> bool" where
  "in_bounds n i = (- int n \<le> i \<and> i < int n)"

definition np_take :: "'x list \<Rightarrow> int list \<Rightarrow> error + 'x list" where
  "np_take xs js =
     (if list_all (in_bounds (length xs)) js
      then Inr (map (\<lambda>i. xs ! nat (if i < 0 then i + int (length xs) else i)) js)
      else Inl IndexError)"

definition np_getitem :: "'x list \<Rightarrow> seq_index \<Rightarrow> error + 'x list" where
  "np_getitem xs idx =
     (case idx of SliceIndex sl \<Rightarrow> np_slice xs sl | ListIndex js \<Rightarrow> np_take xs js)"

text \<open>
  The array that \<open>np.concatenate\<close> builds from a list of \<open>range\<close> objects. An empty
  list is a \<open>ValueError\<close>. An empty \<open>range\<close> becomes an empty array of the default
  dtype, float64, and the concatenation is then a float array, which numpy does not
  accept as an index.
\<close>

datatype index_array = IntArray "int list" | FloatArray

definition np_concatenate :: "int list list \<Rightarrow> error + index_array" where
  "np_concatenate inds =
     (if inds = [] then Inl ValueError
      else if list_ex (\<lambda>r. r = []) inds then Inr FloatArray
      else Inr (IntArray (concat inds)))"

definition np_getitem_array :: "'a ndarray \<Rightarrow> index_array \<Rightarrow> error + 'a ndarray" where
  "np_getitem_array a inds =
     (case inds of
        FloatArray \<Rightarrow> Inl IndexError
      | IntArray js \<Rightarrow>
          (case np_take (rows a) js of
             Inl e \<Rightarrow> Inl e
           | Inr rs \<Rightarrow> Inr (a\<lparr>rows := rs\<rparr>)))"

text \<open>\<open>np.empty((n, h), dtype=np.float32)\<close>; a negative dimension is a \<open>ValueError\<close>.\<close>

definition np_empty :: "('a, 'l) world \<Rightarrow> int \<Rightarrow> nat \<Rightarrow> error + 'a ndarray" where
  "np_empty w n h =
     (if n < 0 then Inl ValueError
      else Inr \<lparr>shape1 = h,
                rows = map (\<lambda>i. map (uninitialised w i) [0..<h]) [0..<nat n]\<rparr>)"

text \<open>
  \<open>a[n:n+i] = sen\<close> for \<open>0 \<le> n\<close> and \<open>i = len(sen)\<close>. The slice is clipped to the
  rows of \<open>a\<close>; \<open>sen\<close> has to broadcast to the shape of the clipped slice (each of its
  dimensions is that of the slice, or 1), else numpy raises a \<open>ValueError\<close>. The values
  are converted to the dtype of \<open>a\<close>.
\<close>

definition broadcast_row :: "('a, 'l) world \<Rightarrow> nat \<Rightarrow> 'a list \<Rightarrow> 'a list" where
  "broadcast_row w h r =
     (if length r = h then map (astype_float32 w) r
      else replicate h (astype_float32 w (r ! 0)))"

definition np_setitem_slice ::
    "('a, 'l) world \<Rightarrow> 'a ndarray \<Rightarrow> nat \<Rightarrow> 'a ndarray \<Rightarrow> error + 'a ndarray" where
  "np_setitem_slice w a n sen =
     (let i = length (rows sen);
          lo = min n (length (rows a));
          hi = min (n + i) (length (rows a));
          k = hi - lo
      in if (i = k \<or> i = 1) \<and> (shape1 sen = shape1 a \<or> shape1 sen = 1)
         then Inr (a\<lparr>rows := take lo (rows a)
                        @ map (\<lambda>j. broadcast_row w (shape1 a)
                                     (rows sen ! (if i = k then j else 0))) [0..<k]
                        @ drop hi (rows a)\<rparr>)
         else Inl ValueError)"

text \<open>\<open>int(x)\<close> for a finite float: truncation towards zero.\<close>

definition py_int :: "real \<Rightarrow> int" where
  "py_int x = (if 0 \<le> x then \<lfloor>x\<rfloor> else \<lceil>x\<rceil>)"

subsection \<open>The cached properties\<close>

definition labels :: "('a, 'l) world \<Rightarrow> ('a, 'l) reader \<Rightarrow> 'l list \<times> ('a, 'l) reader" where
  "labels w r =
     (case p_labels r of
        None \<Rightarrow> (labels_pickle w,
                 r\<lparr>p_labels := Some (labels_pickle w), opened := opened r @ [LabelsFile]\<rparr>)
      | Some l \<Rightarrow> (l, r))"

definition data_len :: "('a, 'l) world \<Rightarrow> ('a, 'l) reader \<Rightarrow> int \<times> ('a, 'l) reader" where
  "data_len w r =
     (if p_data_len r = - 1
      then (case labels w r of (l, r') \<Rightarrow> (int (length l), r'\<lparr>p_data_len := int (length l)\<rparr>))
      else (p_data_len r, r))"

definition activation_ranges ::
    "('a, 'l) world \<Rightarrow> ('a, 'l) reader \<Rightarrow> activation_ranges \<times> ('a, 'l) reader" where
  "activation_ranges w r =
     (case p_activation_ranges r of
        None \<Rightarrow> (ranges_pickle w,
                 r\<lparr>p_activation_ranges := Some (ranges_pickle w),
                   opened := opened r @ [RangesFile]\<rparr>)
      | Some t \<Rightarrow> (t, r))"

subsection \<open>\<open>read_activations\<close>\<close>

text \<open>
  The body of the \<open>while True\<close> loop, once for every dump left in the file; the end of
  the file (\<open>EOFError\<close>) ends the loop. The loop's variables are \<open>hidden_size\<close>,
  \<open>activations\<close> and \<open>n\<close>.
\<close>

fun read_loop ::
    "('a, 'l) world \<Rightarrow> ('a, 'l) reader \<Rightarrow> 'a ndarray list \<Rightarrow> nat option \<Rightarrow> 'a ndarray option
      \<Rightarrow> nat \<Rightarrow> (error + 'a ndarray option) \<times> ('a, 'l) reader" where
  "read_loop w r [] hidden_size activations n = (Inr activations, r)"
| "read_loop w r (sen_activations # rest) hidden_size activations n =
     (case (case hidden_size of
              None \<Rightarrow>
                (case data_len w r of (dl, r') \<Rightarrow>
                   (case np_empty w dl (shape1 sen_activations) of
                      Inl e \<Rightarrow> (Inl e, r')
                    | Inr a \<Rightarrow> (Inr (Some (shape1 sen_activations), Some a), r')))
            | Some h \<Rightarrow> (Inr (Some h, activations), r)) of
        (Inl e, r') \<Rightarrow> (Inl e, r')
      | (Inr (hidden_size', activations'), r') \<Rightarrow>
          (case activations' of
             None \<Rightarrow> (Inl TypeError, r')
           | Some a \<Rightarrow>
               (case np_setitem_slice w a n sen_activations of
                  Inl e \<Rightarrow> (Inl e, r')
                | Inr a' \<Rightarrow>
                    read_loop w r' rest hidden_size' (Some a')
                      (n + length (rows sen_activations)))))"

definition read_activations ::
    "('a, 'l) world \<Rightarrow> ('a, 'l) reader \<Rightarrow> activation_name
      \<Rightarrow> (error + 'a ndarray option) \<times> ('a, 'l) reader" where
  "read_activations w r name =
     (case activations_pickle w name of
        None \<Rightarrow> (Inl FileNotFoundError, r)
      | Some dumps \<Rightarrow>
          read_loop w (r\<lparr>opened := opened r @ [ActivationsFile name]\<rparr>) dumps None None 0)"

subsection \<open>The setter of \<open>activations\<close>\<close>

definition set_activations ::
    "('a, 'l) world \<Rightarrow> ('a, 'l) reader \<Rightarrow> activation_name option
      \<Rightarrow> error option \<times> ('a, 'l) reader" where
  "set_activations w r name =
     (case name of
        None \<Rightarrow> (None, r\<lparr>p_activations := None\<rparr>)
      | Some nm \<Rightarrow>
          (if activation_name r = Some nm then (None, r)
           else
             (case read_activations w (r\<lparr>activation_name := Some nm\<rparr>) nm of
                (Inl e, r') \<Rightarrow> (Some e, r')
              | (Inr a, r') \<Rightarrow> (None, r'\<lparr>p_activations := a\<rparr>))))"

text \<open>\<open>__init__\<close>: the state of a new reader.\<close>

definition init :: "('a, 'l) reader" where
  "init = \<lparr>p_activations = None, p_labels = None, p_data_len = - 1,
           p_activation_ranges = None, activation_name = None, opened = []\<rparr>"

subsection \<open>Indexing\<close>

text \<open>
  The loop of \<open>_parse_key\<close> over \<open>key[1:]\<close>. A string that is no index type reaches
  \<open>arg[0]\<close>, which is an \<open>IndexError\<close> on the empty string and a string, not an int,
  on any other, so that the \<open>KeyError\<close> branch is taken.
\<close>

fun parse_args ::
    "('a, 'l) world \<Rightarrow> ('a, 'l) reader \<Rightarrow> key_arg list \<Rightarrow> string
      \<Rightarrow> (error + string) \<times> ('a, 'l) reader" where
  "parse_args w r [] indextype = (Inr indextype, r)"
| "parse_args w r (StrArg s # args) indextype =
     (if s \<in> set [''all'', ''key'', ''pos''] then parse_args w r args s
      else if s = [] then (Inl IndexError, r)
      else (Inl KeyError, r))"
| "parse_args w r (NameArg nm # args) indextype =
     (case set_activations w r (Some nm) of
        (Some e, r') \<Rightarrow> (Inl e, r')
      | (None, r') \<Rightarrow> parse_args w r' args indextype)"

definition wrap_int :: "index \<Rightarrow> seq_index" where
  "wrap_int idx = (case idx of IntIndex i \<Rightarrow> ListIndex [i] | SeqIndex s \<Rightarrow> s)"

definition parse_key ::
    "('a, 'l) world \<Rightarrow> ('a, 'l) reader \<Rightarrow> activation_key
      \<Rightarrow> (error + seq_index \<times> string) \<times> ('a, 'l) reader" where
  "parse_key w r key =
     (case key of
        Tuple idx args \<Rightarrow>
          (case parse_args w r args ''pos'' of
             (Inl e, r') \<Rightarrow> (Inl e, r')
           | (Inr indextype, r') \<Rightarrow> (Inr (wrap_int idx, indextype), r'))
      | Plain idx \<Rightarrow> (Inr (wrap_int idx, ''pos''), r))"

text \<open>
  \<open>[self.activation_ranges[r] for r in key]\<close>: the property is read once for every
  element, and a key that the table does not have is a \<open>KeyError\<close>.
\<close>

fun lookup_ranges ::
    "('a, 'l) world \<Rightarrow> ('a, 'l) reader \<Rightarrow> int list \<Rightarrow> (error + range list) \<times> ('a, 'l) reader" where
  "lookup_ranges w r [] = (Inr [], r)"
| "lookup_ranges w r (k # ks) =
     (case activation_ranges w r of (t, r') \<Rightarrow>
        (case map_of t k of
           None \<Rightarrow> (Inl KeyError, r')
         | Some rg \<Rightarrow>
             (case lookup_ranges w r' ks of
                (Inl e, r'') \<Rightarrow> (Inl e, r'')
              | (Inr rgs, r'') \<Rightarrow> (Inr (rg # rgs), r''))))"

text \<open>\<open>x if x else d\<close> for an optional int: \<open>None\<close> and 0 are false.\<close>

definition truthy :: "int option \<Rightarrow> bool" where
  "truthy x = (case x of None \<Rightarrow> False | Some v \<Rightarrow> v \<noteq> 0)"

definition create_range_from_key ::
    "('a, 'l) world \<Rightarrow> ('a, 'l) reader \<Rightarrow> index \<Rightarrow> (error + range list) \<times> ('a, 'l) reader" where
  "create_range_from_key w r key =
     (case key of
        SeqIndex (ListIndex ks) \<Rightarrow> lookup_ranges w r ks
      | SeqIndex (SliceIndex (Slice a b c)) \<Rightarrow>
          (if c = None \<or> c = Some 1 then
             (let start = (if truthy a then the a else 0) in
              case (if truthy b then (Inr (the b), r)
                    else (case activation_ranges w r of (t, r') \<Rightarrow>
                            (if t = [] then (Inl ValueError, r')
                             else (Inr (Max (set (map fst t)) + 1), r')))) of
                (Inl e, r') \<Rightarrow> (Inl e, r')
              | (Inr stop, r') \<Rightarrow>
                  (case activation_ranges w r' of (t, r'') \<Rightarrow>
                     (Inr (map snd (filter (\<lambda>(k, rg). start \<le> k \<and> k < stop) t)), r'')))
           else (Inl AssertionError, r))
      | IntIndex i \<Rightarrow> (Inl KeyError, r))"

definition create_indices_from_range :: "range list \<Rightarrow> error + index_array" where
  "create_indices_from_range ranges =
     np_concatenate (map (\<lambda>(mi, ma). py_range2 mi ma) ranges)"

text \<open>
  \<open>__getitem__\<close>. In position mode the values of the table are made an array and
  indexed by the list or slice.
\<close>

definition getitem ::
    "('a, 'l) world \<Rightarrow> ('a, 'l) reader \<Rightarrow> activation_key
      \<Rightarrow> (error + 'a ndarray) \<times> ('a, 'l) reader" where
  "getitem w r key =
     (case parse_key w r key of
        (Inl e, r1) \<Rightarrow> (Inl e, r1)
      | (Inr (idx, indextype), r1) \<Rightarrow>
          (case p_activations r1 of
             None \<Rightarrow> (Inl AssertionError, r1)
           | Some acts \<Rightarrow>
               (if indextype = ''all'' then
                  (case np_getitem (rows acts) idx of
                     Inl e \<Rightarrow> (Inl e, r1)
                   | Inr rs \<Rightarrow> (Inr (acts\<lparr>rows := rs\<rparr>), r1))
                else
                  (case (if indextype = ''key'' then create_range_from_key w r1 (SeqIndex idx)
                         else (case activation_ranges w r1 of (t, r2) \<Rightarrow>
                                 (np_getitem (map snd t) idx, r2))) of
                     (Inl e, r2) \<Rightarrow> (Inl e, r2)
                   | (Inr ranges, r2) \<Rightarrow>
                       (case create_indices_from_range ranges of
                          Inl e \<Rightarrow> (Inl e, r2)
                        | Inr inds \<Rightarrow> (np_getitem_array acts inds, r2))))))"

subsection \<open>\<open>create_data_split\<close>\<close>

text \<open>
  The assertion on \<open>data_subset_size\<close>: \<open>0 < s <= self.data_len\<close> reads the
  property only when \<open>0 < s\<close> holds.
\<close>

definition check_subset_size ::
    "('a, 'l) world \<Rightarrow> ('a, 'l) reader \<Rightarrow> int \<Rightarrow> bool \<times> ('a, 'l) reader" where
  "check_subset_size w r data_subset_size =
     (if data_subset_size = - 1 then (True, r)
      else if 0 < data_subset_size
      then (case data_len w r of (dl, r') \<Rightarrow> (data_subset_size \<le> dl, r'))
      else (False, r))"

text \<open>
  \<open>split\<close>, \<open>indices\<close>, \<open>train_indices\<close> and \<open>test_indices\<close>: the sample is cut
  at \<open>int(data_size * train_test_split)\<close>.
\<close>

definition split_indices ::
    "('a, 'l) world \<Rightarrow> int \<Rightarrow> real \<Rightarrow> error + (int list \<times> int list)" where
  "split_indices w data_size train_test_split =
     (let split = py_int (float_mul w (real_of_int data_size) train_test_split) in
      case random_choice w data_size of
        Inl e \<Rightarrow> Inl e
      | Inr indices \<Rightarrow>
          (case np_slice indices (Slice None (Some split) None) of
             Inl e \<Rightarrow> Inl e
           | Inr train_indices \<Rightarrow>
               (case np_slice indices (Slice (Some split) None None) of
                  Inl e \<Rightarrow> Inl e
                | Inr test_indices \<Rightarrow> Inr (train_indices, test_indices))))"

text \<open>
  The returned dictionary; its four values are computed in the order they are written.
  \<open>activations\<close> is \<open>None\<close> when the file had no dump, and indexing \<open>None\<close> is a
  \<open>TypeError\<close>.
\<close>

definition gather_split ::
    "('a, 'l) world \<Rightarrow> ('a, 'l) reader \<Rightarrow> 'a ndarray option \<Rightarrow> int list \<Rightarrow> int list
      \<Rightarrow> (error + ('a, 'l) data_dict) \<times> ('a, 'l) reader" where
  "gather_split w r activations train_indices test_indices =
     (case activations of
        None \<Rightarrow> (Inl TypeError, r)
      | Some acts \<Rightarrow>
          (case np_getitem_array acts (IntArray train_indices) of
             Inl e \<Rightarrow> (Inl e, r)
           | Inr trn_x \<Rightarrow>
               (case labels w r of (ls, r1) \<Rightarrow>
                  (case np_take ls train_indices of
                     Inl e \<Rightarrow> (Inl e, r1)
                   | Inr trn_y \<Rightarrow>
                       (case np_getitem_array acts (IntArray test_indices) of
                          Inl e \<Rightarrow> (Inl e, r1)
                        | Inr tst_x \<Rightarrow>
                            (case labels w r1 of (ls', r2) \<Rightarrow>
                               (case np_take ls' test_indices of
                                  Inl e \<Rightarrow> (Inl e, r2)
                                | Inr tst_y \<Rightarrow>
                                    (Inr \<lparr>train_x = trn_x, train_y = trn_y,
                                          test_x = tst_x, test_y = tst_y\<rparr>, r2))))))))"

definition create_data_split ::
    "('a, 'l) world \<Rightarrow> ('a, 'l) reader \<Rightarrow> activation_name \<Rightarrow> int \<Rightarrow> real
      \<Rightarrow> (error + ('a, 'l) data_dict) \<times> ('a, 'l) reader" where
  "create_data_split w r name data_subset_size train_test_split =
     (case check_subset_size w r data_subset_size of
        (False, r1) \<Rightarrow> (Inl AssertionError, r1)
      | (True, r1) \<Rightarrow>
          (case read_activations w r1 name of
             (Inl e, r2) \<Rightarrow> (Inl e, r2)
           | (Inr activations, r2) \<Rightarrow>
               (case (if data_subset_size = - 1 then data_len w r2
                      else (data_subset_size, r2)) of
                  (data_size, r3) \<Rightarrow>
                    (case split_indices w data_size train_test_split of
                       Inl e \<Rightarrow> (Inl e, r3)
                     | Inr (train_indices, test_indices) \<Rightarrow>
                         gather_split w r3 activations train_indices test_indices))))"

subsection \<open>Notions used by the properties\<close>

text \<open>
  The rows \<open>start .. end - 1\<close> of an array, in increasing order; and the ranges whose
  rows \<open>__getitem__\<close> can gather: those that are not empty and lie inside the array.
\<close>

definition range_rows :: "'a ndarray \<Rightarrow> range \<Rightarrow> 'a list list" where
  "range_rows a rg = map ((!) (rows a)) [nat (fst rg)..<nat (snd rg)]"

definition nonempty_range_in :: "'a ndarray \<Rightarrow> range \<Rightarrow> bool" where
  "nonempty_range_in a rg = (0 \<le> fst rg \<and> fst rg < snd rg \<and> snd rg \<le> int (length (rows a)))"

text \<open>
  The invariant of the range table: taken in the order of extraction, the ranges are
  consecutive blocks that begin at row 0 and end at the last row, without a gap and
  without an overlap. The block of a sentence that has no activation is empty.
\<close>

fun consecutive :: "int \<Rightarrow> range list \<Rightarrow> int \<Rightarrow> bool" where
  "consecutive a [] b = (a = b)"
| "consecutive a (rg # rgs) b = (fst rg = a \<and> fst rg \<le> snd rg \<and> consecutive (snd rg) rgs b)"

definition range_table_invariant :: "activation_ranges \<Rightarrow> nat \<Rightarrow> bool" where
  "range_table_invariant t total_rows =
     (distinct (map fst t) \<and> consecutive 0 (map snd t) (int total_rows))"

text \<open>The positions that a slice selects in a sequence of length \<open>n\<close>.\<close>

definition slice_positions :: "py_slice \<Rightarrow> nat \<Rightarrow> int list" where
  "slice_positions sl n =
     (case slice_indices sl n of Inl e \<Rightarrow> [] | Inr (a, b, c) \<Rightarrow> py_range3 a b c)"

text \<open>
  An array whose rows all have the length \<open>shape1\<close>; the number of rows of a series
  of dumps; and the rows of the dumps, one dump after the other, as they are stored in
  the matrix.
\<close>

definition well_shaped :: "'a ndarray \<Rightarrow> bool" where
  "well_shaped a = list_all (\<lambda>row. length row = shape1 a) (rows a)"

definition total_rows :: "'a ndarray list \<Rightarrow> nat" where
  "total_rows ds = sum_list (map (\<lambda>d. length (rows d)) ds)"

definition stored_rows :: "('a, 'l) world \<Rightarrow> 'a ndarray list \<Rightarrow> 'a list list" where
  "stored_rows w ds = concat (map (\<lambda>d. map (map (astype_float32 w)) (rows d)) ds)"

subsection \<open>An example\<close>

text \<open>
  Three sentences with the keys 0, 1 and 5 and with 3, 2 and 3 activations of width 2,
  dumped one sentence at a time under the name \<open>(1, hx)\<close>, and eight labels.
\<close>

definition example_name :: activation_name where
  "example_name = (1, ''hx'')"

definition example_dumps :: "nat ndarray list" where
  "example_dumps =
     [\<lparr>shape1 = 2, rows = [[0, 10], [1, 11], [2, 12]]\<rparr>,
      \<lparr>shape1 = 2, rows = [[3, 13], [4, 14]]\<rparr>,
      \<lparr>shape1 = 2, rows = [[5, 15], [6, 16], [7, 17]]\<rparr>]"

definition example_matrix :: "nat ndarray" where
  "example_matrix =
     \<lparr>shape1 = 2,
      rows = [[0, 10], [1, 11], [2, 12], [3, 13], [4, 14], [5, 15], [6, 16], [7, 17]]\<rparr>"

definition example_ranges :: activation_ranges where
  "example_ranges = [(0, (0, 3)), (1, (3, 5)), (5, (5, 8))]"

definition example_labels :: "nat list" where
  "example_labels = [0, 1, 0, 1, 1, 0, 1, 0]"

definition example_world :: "(nat, nat) world" where
  "example_world =
     \<lparr>labels_pickle = example_labels,
      ranges_pickle = example_ranges,
      activations_pickle = (\<lambda>nm. if nm = example_name then Some example_dumps else None),
      uninitialised = (\<lambda>i j. 0),
      astype_float32 = (\<lambda>x. x),
      random_choice = (\<lambda>n. if n = 8 then Inr [3, 0, 7, 1, 5, 2, 6, 4]
                            else if n = 4 then Inr [2, 0, 3, 1] else Inl ValueError),
      float_mul = (\<lambda>x y. x * y)\<rparr>"

text \<open>
  The example with a second sentence that has no activation: its range is \<open>(3, 3)\<close>,
  and the five rows that follow it belong to the third sentence.
\<close>

definition empty_sentence_ranges :: activation_ranges where
  "empty_sentence_ranges = [(0, (0, 3)), (1, (3, 3)), (5, (3, 8))]"

definition empty_sentence_world :: "(nat, nat) world" where
  "empty_sentence_world = example_world\<lparr>ranges_pickle := empty_sentence_ranges\<rparr>"

text \<open>The reader after \<open>reader.activations = (1, 'hx')\<close> on a new reader.\<close>

definition example_reader :: "(nat, nat) reader" where
  "example_reader =
     \<lparr>p_activations = Some example_matrix, p_labels = Some example_labels, p_data_len = 8,
      p_activation_ranges = None, activation_name = Some example_name,
      opened = [ActivationsFile example_name, LabelsFile]\<rparr>"

text \<open>
  Three variants of the example: the file holds the dumps of the first two sentences
  only (5 rows for 8 labels); the dump of the second sentence has three columns; and
  there are only four labels for the 8 rows of the file.
\<close>

definition short_dumps :: "nat ndarray list" where
  "short_dumps =
     [\<lparr>shape1 = 2, rows = [[0, 10], [1, 11], [2, 12]]\<rparr>,
      \<lparr>shape1 = 2, rows = [[3, 13], [4, 14]]\<rparr>]"

definition short_world :: "(nat, nat) world" where
  "short_world =
     example_world\<lparr>activations_pickle :=
       (\<lambda>nm. if nm = example_name then Some short_dumps else None)\<rparr>"

definition wide_dumps :: "nat ndarray list" where
  "wide_dumps =
     [\<lparr>shape1 = 2, rows = [[0, 10], [1, 11], [2, 12]]\<rparr>,
      \<lparr>shape1 = 3, rows = [[3, 13, 23], [4, 14, 24]]\<rparr>]"

definition wide_world :: "(nat, nat) world" where
  "wide_world =
     example_world\<lparr>activations_pickle :=
       (\<lambda>nm. if nm = example_name then Some wide_dumps else None)\<rparr>"

definition few_labels_world :: "(nat, nat) world" where
  "few_labels_world = example_world\<lparr>labels_pickle := [0, 1, 0, 1]\<rparr>"

section \<open>Properties\<close>

subsection \<open>Indexing arrays\<close>

lemma upto_as_upt: "0 \<le> s \<Longrightarrow> [s..e - 1] = map int [nat s..<nat e]"
  by (auto simp: list_eq_iff_nth_eq)

lemma np_take_range:
  assumes "0 \<le> s" "e \<le> int (length xs)"
  shows "np_take xs (py_range2 s e) = Inr (map ((!) xs) [nat s..<nat e])"
  using assms
  by (auto simp: np_take_def py_range2_def upto_as_upt list_all_iff in_bounds_def)

lemma np_take_Nil: "np_take xs [] = Inr []"
  by (simp add: np_take_def)

lemma np_take_append:
  "np_take xs js = Inr as \<Longrightarrow> np_take xs ks = Inr bs \<Longrightarrow> np_take xs (js @ ks) = Inr (as @ bs)"
  by (auto simp: np_take_def split: if_splits)

lemma np_take_concat_ranges:
  "list_all (nonempty_range_in a) rgs \<Longrightarrow>
   np_take (rows a) (concat (map (\<lambda>(mi, ma). py_range2 mi ma) rgs))
     = Inr (concat (map (range_rows a) rgs))"
proof (induction rgs)
  case Nil
  then show ?case by (simp add: np_take_Nil)
next
  case (Cons rg rgs)
  obtain s e where rg: "rg = (s, e)" by (cases rg)
  from Cons.prems have "0 \<le> s" "e \<le> int (length (rows a))"
    by (simp_all add: rg nonempty_range_in_def)
  then have "np_take (rows a) (py_range2 s e) = Inr (range_rows a rg)"
    by (simp add: np_take_range range_rows_def rg)
  moreover from Cons have "np_take (rows a) (concat (map (\<lambda>(mi, ma). py_range2 mi ma) rgs))
     = Inr (concat (map (range_rows a) rgs))" by simp
  ultimately show ?case
    by (simp add: rg np_take_append)
qed

lemma create_indices_from_range_ok:
  assumes "rgs \<noteq> []" "list_all (nonempty_range_in a) rgs"
  shows "create_indices_from_range rgs
           = Inr (IntArray (concat (map (\<lambda>(mi, ma). py_range2 mi ma) rgs)))"
proof -
  have "\<not> list_ex (\<lambda>r. r = []) (map (\<lambda>(mi, ma). py_range2 mi ma) rgs)"
    using assms(2)
    by (auto simp: list_ex_iff list_all_iff nonempty_range_in_def py_range2_def)
  with assms(1) show ?thesis
    by (simp add: create_indices_from_range_def np_concatenate_def)
qed

lemma gather_ranges:
  assumes "rgs \<noteq> []" "list_all (nonempty_range_in a) rgs"
  shows "(case create_indices_from_range rgs of
            Inl e \<Rightarrow> (Inl e, r)
          | Inr inds \<Rightarrow> (np_getitem_array a inds, r))
         = (Inr (a\<lparr>rows := concat (map (range_rows a) rgs)\<rparr>), r)"
  by (simp add: create_indices_from_range_ok[OF assms] np_getitem_array_def
      np_take_concat_ranges[OF assms(2)])

subsection \<open>The range table\<close>

lemma activation_ranges_idem:
  "activation_ranges w r = (t, r') \<Longrightarrow> activation_ranges w r' = (t, r')"
  by (auto simp: activation_ranges_def split: option.splits)

lemma activation_ranges_p_activations:
  "activation_ranges w r = (t, r') \<Longrightarrow> p_activations r' = p_activations r"
  by (auto simp: activation_ranges_def split: option.splits)

lemma lookup_ranges_fix:
  "activation_ranges w r' = (t, r') \<Longrightarrow> list_all2 (\<lambda>k rg. map_of t k = Some rg) ks rgs
    \<Longrightarrow> lookup_ranges w r' ks = (Inr rgs, r')"
  by (induction ks arbitrary: rgs) (auto simp: list_all2_Cons1)

lemma lookup_ranges_ok:
  assumes "activation_ranges w r = (t, r')" "ks \<noteq> []"
    "list_all2 (\<lambda>k rg. map_of t k = Some rg) ks rgs"
  shows "lookup_ranges w r ks = (Inr rgs, r')"
proof -
  from assms obtain k ks' rg rgs' where ks: "ks = k # ks'" and rgs: "rgs = rg # rgs'"
    and k: "map_of t k = Some rg" and rest: "list_all2 (\<lambda>k rg. map_of t k = Some rg) ks' rgs'"
    by (cases ks; cases rgs) auto
  from lookup_ranges_fix[OF activation_ranges_idem[OF assms(1)] rest]
  show ?thesis by (simp add: ks rgs assms(1) k)
qed

lemma wrap_int_simps:
  "wrap_int (IntIndex k) = ListIndex [k]" "wrap_int (SeqIndex s) = s"
  by (simp_all add: wrap_int_def)

lemma getitem_key_list:
  assumes "p_activations r = Some a" "activation_ranges w r = (t, r')" "ks \<noteq> []"
    "list_all2 (\<lambda>k rg. map_of t k = Some rg) ks rgs" "list_all (nonempty_range_in a) rgs"
  shows "getitem w r (Tuple (SeqIndex (ListIndex ks)) [StrArg ''key''])
           = (Inr (a\<lparr>rows := concat (map (range_rows a) rgs)\<rparr>), r')"
proof -
  from assms(3,4) have ne: "rgs \<noteq> []" by auto
  show ?thesis
    by (simp add: getitem_def parse_key_def wrap_int_simps assms(1) create_range_from_key_def
        lookup_ranges_ok[OF assms(2,3,4)] gather_ranges[OF ne assms(5)])
qed

lemma parse_key_int:
  "parse_key w r (Tuple (IntIndex k) args) = parse_key w r (Tuple (SeqIndex (ListIndex [k])) args)"
  "parse_key w r (Plain (IntIndex k)) = parse_key w r (Plain (SeqIndex (ListIndex [k])))"
  by (simp_all add: parse_key_def wrap_int_simps split: prod.splits sum.splits)

lemma getitem_int_as_list:
  "getitem w r (Tuple (IntIndex k) args) = getitem w r (Tuple (SeqIndex (ListIndex [k])) args)"
  "getitem w r (Plain (IntIndex k)) = getitem w r (Plain (SeqIndex (ListIndex [k])))"
  by (simp_all add: getitem_def parse_key_int)

lemma example_ranges_loaded:
  "activation_ranges example_world example_reader
     = (example_ranges,
        example_reader\<lparr>p_activation_ranges := Some example_ranges,
                        opened := [ActivationsFile example_name, LabelsFile, RangesFile]\<rparr>)"
  by (simp add: activation_ranges_def example_world_def example_reader_def)

subsection \<open>Indexing by key\<close>

text \<open>
  For a key \<open>k\<close> that the range table maps to \<open>(s, e)\<close>, a range that is not empty
  and lies inside the loaded matrix, \<open>reader[k, 'key']\<close> returns the rows \<open>s .. e - 1\<close>
  of the matrix, in increasing order.
\<close>

lemma getitem_key_rows_nonempty:
  assumes "p_activations r = Some a" and "activation_ranges w r = (t, r')"
    and "map_of t k = Some (s, e)"
    and "0 \<le> s" and "s < e" and "e \<le> int (length (rows a))"
  shows "getitem w r (Tuple (IntIndex k) [StrArg ''key''])
           = (Inr (a\<lparr>rows := map ((!) (rows a)) [nat s..<nat e]\<rparr>), r')"
proof -
  have "getitem w r (Tuple (SeqIndex (ListIndex [k])) [StrArg ''key''])
          = (Inr (a\<lparr>rows := concat (map (range_rows a) [(s, e)])\<rparr>), r')"
    using assms by (intro getitem_key_list) (simp_all add: nonempty_range_in_def)
  then show ?thesis by (simp add: range_rows_def getitem_int_as_list)
qed

text \<open>
  C1. The claim asks, for every key of the range table, for the rows of its range. The
  code gathers them for every range that is not empty (the lemma above). For a key whose
  range is empty, as that of a sentence without activations, it does not return the
  zero rows of the range: \<open>np.concatenate\<close> makes the empty \<open>range\<close> a float array,
  and indexing the matrix with it is an \<open>IndexError\<close>. In the example with the table
  \<open>{0: (0, 3), 1: (3, 3), 5: (3, 8)}\<close>, \<open>reader[1, 'key']\<close> raises, while
  \<open>reader[3:3, 'all']\<close> returns the same zero rows as an empty array.
\<close>

theorem getitem_key_empty_range:
  "p_activations example_reader = Some example_matrix
   \<and> map_of (fst (activation_ranges empty_sentence_world example_reader)) 1 = Some (3, 3)
   \<and> fst (getitem empty_sentence_world example_reader (Tuple (IntIndex 1) [StrArg ''key'']))
       = Inl IndexError
   \<and> fst (getitem empty_sentence_world example_reader
            (Tuple (SeqIndex (SliceIndex (Slice (Some 3) (Some 3) None))) [StrArg ''all'']))
       = Inr \<lparr>shape1 = 2, rows = []\<rparr>"
  by code_simp

subsection \<open>Indexing by position\<close>

lemma map_of_nth:
  "distinct (map fst t) \<Longrightarrow> i < length t \<Longrightarrow> map_of t (fst (t ! i)) = Some (snd (t ! i))"
  by (simp add: map_of_eq_Some_iff)

text \<open>
  C2. For a position \<open>i\<close> below the number of entries of the range table,
  \<open>reader[i]\<close> is \<open>reader[k, 'key']\<close> for the \<open>i\<close>-th key \<open>k\<close> of the table in its
  insertion order: the same result or the same exception, and the same state.
\<close>

theorem getitem_pos_eq_key:
  assumes "activation_ranges w r = (t, r')" and "distinct (map fst t)" and "i < length t"
  shows "getitem w r (Plain (IntIndex (int i)))
           = getitem w r (Tuple (IntIndex (fst (t ! i))) [StrArg ''key''])"
proof -
  have m: "map_of t (fst (t ! i)) = Some (snd (t ! i))"
    using assms(2,3) by (rule map_of_nth)
  have l: "lookup_ranges w r [fst (t ! i)] = (Inr [snd (t ! i)], r')"
    by (intro lookup_ranges_ok[OF assms(1)]) (simp_all add: m)
  have p: "np_getitem (map snd t) (ListIndex [int i]) = Inr [snd (t ! i)]"
    using assms(3) by (simp add: np_getitem_def np_take_def in_bounds_def)
  show ?thesis
    by (simp add: getitem_def parse_key_def wrap_int_simps create_range_from_key_def
        assms(1) l p split: option.splits del: lookup_ranges.simps)
qed

theorem getitem_pos_eq_key_witness:
  "distinct (map fst example_ranges) \<and> (2::nat) < length example_ranges
   \<and> getitem example_world example_reader (Plain (IntIndex 2))
       = getitem example_world example_reader (Tuple (IntIndex 5) [StrArg ''key''])"
proof -
  have d: "distinct (map fst example_ranges)" and l: "(2::nat) < length example_ranges"
    by (simp_all add: example_ranges_def)
  from getitem_pos_eq_key[OF example_ranges_loaded d l]
  show ?thesis using d l by (simp add: example_ranges_def)
qed

subsection \<open>Lists of keys\<close>

lemma np_take_error: "np_take xs js = Inl e \<Longrightarrow> e = IndexError"
  by (auto simp: np_take_def split: if_splits)

lemma np_take_append_cases:
  "np_take xs (js @ ks)
     = (case np_take xs js of
          Inl e \<Rightarrow> Inl e
        | Inr as \<Rightarrow> (case np_take xs ks of Inl e \<Rightarrow> Inl e | Inr bs \<Rightarrow> Inr (as @ bs)))"
  by (auto simp: np_take_def)

lemma gather_single:
  "(case create_indices_from_range [rg] of
      Inl e \<Rightarrow> (Inl e, r)
    | Inr inds \<Rightarrow> (np_getitem_array a inds, r))
   = (if py_range2 (fst rg) (snd rg) = [] then (Inl IndexError, r)
      else (case np_take (rows a) (py_range2 (fst rg) (snd rg)) of
              Inl e \<Rightarrow> (Inl e, r)
            | Inr rs \<Rightarrow> (Inr (a\<lparr>rows := rs\<rparr>), r)))"
  by (cases rg)
     (simp add: create_indices_from_range_def np_concatenate_def np_getitem_array_def
        split: sum.splits)

lemma gather_pair:
  "(case create_indices_from_range [rg1, rg2] of
      Inl e \<Rightarrow> (Inl e, r)
    | Inr inds \<Rightarrow> (np_getitem_array a inds, r))
   = (if py_range2 (fst rg1) (snd rg1) = [] \<or> py_range2 (fst rg2) (snd rg2) = []
      then (Inl IndexError, r)
      else (case np_take (rows a) (py_range2 (fst rg1) (snd rg1) @ py_range2 (fst rg2) (snd rg2)) of
              Inl e \<Rightarrow> (Inl e, r)
            | Inr rs \<Rightarrow> (Inr (a\<lparr>rows := rs\<rparr>), r)))"
  by (cases rg1; cases rg2)
     (simp add: create_indices_from_range_def np_concatenate_def np_getitem_array_def
        split: sum.splits)

lemma getitem_key_unfold:
  assumes "p_activations r = Some a" "activation_ranges w r = (t, r')" "ks \<noteq> []"
    "list_all2 (\<lambda>k rg. map_of t k = Some rg) ks rgs"
  shows "getitem w r (Tuple (SeqIndex (ListIndex ks)) [StrArg ''key''])
           = (case create_indices_from_range rgs of
                Inl e \<Rightarrow> (Inl e, r')
              | Inr inds \<Rightarrow> (np_getitem_array a inds, r'))"
  by (simp add: getitem_def parse_key_def wrap_int_simps assms(1) create_range_from_key_def
        lookup_ranges_ok[OF assms(2,3,4)])

lemma getitem_not_loaded:
  "p_activations r = None \<Longrightarrow> getitem w r (Tuple idx [StrArg ''key'']) = (Inl AssertionError, r)"
  by (simp add: getitem_def parse_key_def)

text \<open>
  C7. For two keys \<open>k1\<close> and \<open>k2\<close> of the range table,
  \<open>reader[[k1, k2], 'key']\<close> is the concatenation of \<open>reader[k1, 'key']\<close> and
  \<open>reader[k2, 'key']\<close>: when both return, it returns the rows of the first followed
  by the rows of the second, and when one of them raises, it raises the same exception
  (that of the first one that raises), all with the same state of the reader.
\<close>

theorem getitem_key_concat:
  assumes "activation_ranges w r = (t, r')"
    and "map_of t k1 = Some rg1" and "map_of t k2 = Some rg2"
  shows "getitem w r (Tuple (SeqIndex (ListIndex [k1, k2])) [StrArg ''key''])
           = (case getitem w r (Tuple (IntIndex k1) [StrArg ''key'']) of
                (Inl e, r1) \<Rightarrow> (Inl e, r1)
              | (Inr x, r1) \<Rightarrow>
                  (case getitem w r (Tuple (IntIndex k2) [StrArg ''key'']) of
                     (Inl e, r2) \<Rightarrow> (Inl e, r2)
                   | (Inr y, r2) \<Rightarrow> (Inr (x\<lparr>rows := rows x @ rows y\<rparr>), r2)))"
proof (cases "p_activations r")
  case None
  then show ?thesis by (simp add: getitem_not_loaded)
next
  case (Some a)
  have 1: "getitem w r (Tuple (IntIndex k1) [StrArg ''key''])
             = (case create_indices_from_range [rg1] of
                Inl e \<Rightarrow> (Inl e, r')
              | Inr inds \<Rightarrow> (np_getitem_array a inds, r'))"
    unfolding getitem_int_as_list using Some assms by (intro getitem_key_unfold) simp_all
  have 2: "getitem w r (Tuple (IntIndex k2) [StrArg ''key''])
             = (case create_indices_from_range [rg2] of
                Inl e \<Rightarrow> (Inl e, r')
              | Inr inds \<Rightarrow> (np_getitem_array a inds, r'))"
    unfolding getitem_int_as_list using Some assms by (intro getitem_key_unfold) simp_all
  have 3: "getitem w r (Tuple (SeqIndex (ListIndex [k1, k2])) [StrArg ''key''])
             = (case create_indices_from_range [rg1, rg2] of
                Inl e \<Rightarrow> (Inl e, r')
              | Inr inds \<Rightarrow> (np_getitem_array a inds, r'))"
    using Some assms by (intro getitem_key_unfold) simp_all
  show ?thesis
    unfolding 1 2 3 gather_single gather_pair np_take_append_cases
    by (auto split: sum.splits dest: np_take_error)
qed

theorem getitem_key_concat_witness:
  "map_of example_ranges 0 = Some (0, 3) \<and> map_of example_ranges 5 = Some (5, 8)
   \<and> fst (getitem example_world example_reader (Tuple (IntIndex 0) [StrArg ''key'']))
       = Inr \<lparr>shape1 = 2, rows = [[0, 10], [1, 11], [2, 12]]\<rparr>
   \<and> fst (getitem example_world example_reader (Tuple (IntIndex 5) [StrArg ''key'']))
       = Inr \<lparr>shape1 = 2, rows = [[5, 15], [6, 16], [7, 17]]\<rparr>
   \<and> fst (getitem example_world example_reader
            (Tuple (SeqIndex (ListIndex [0, 5])) [StrArg ''key'']))
       = Inr \<lparr>shape1 = 2,
              rows = [[0, 10], [1, 11], [2, 12], [5, 15], [6, 16], [7, 17]]\<rparr>"
proof -
  have k: "map_of example_ranges 0 = Some (0, 3)" "map_of example_ranges 5 = Some (5, 8)"
    by (simp_all add: example_ranges_def)
  have a: "getitem example_world example_reader (Tuple (IntIndex 0) [StrArg ''key''])
       = (Inr \<lparr>shape1 = 2, rows = [[0, 10], [1, 11], [2, 12]]\<rparr>,
          snd (activation_ranges example_world example_reader))"
    by code_simp
  have b: "getitem example_world example_reader (Tuple (IntIndex 5) [StrArg ''key''])
       = (Inr \<lparr>shape1 = 2, rows = [[5, 15], [6, 16], [7, 17]]\<rparr>,
          snd (activation_ranges example_world example_reader))"
    by code_simp
  from getitem_key_concat[OF example_ranges_loaded k]
  show ?thesis using k unfolding a b by simp
qed

subsection \<open>All keys\<close>

lemma consecutive_le: "consecutive a rgs b \<Longrightarrow> a \<le> b"
  by (induction rgs arbitrary: a) force+

lemma consecutive_nonempty_ranges:
  "consecutive a rgs b \<Longrightarrow> list_all (\<lambda>rg. fst rg < snd rg) rgs \<Longrightarrow> 0 \<le> a
     \<Longrightarrow> b \<le> int (length (rows m)) \<Longrightarrow> list_all (nonempty_range_in m) rgs"
proof (induction rgs arbitrary: a)
  case Nil
  then show ?case by simp
next
  case (Cons rg rgs)
  from Cons.prems have c: "consecutive (snd rg) rgs b" and s: "fst rg = a" "fst rg < snd rg"
    and n: "list_all (\<lambda>rg. fst rg < snd rg) rgs"
    by simp_all
  from consecutive_le[OF c] Cons.prems(3,4) s have "nonempty_range_in m rg"
    by (simp add: nonempty_range_in_def)
  moreover have "list_all (nonempty_range_in m) rgs"
    using Cons.IH[OF c n] s Cons.prems(3,4) by simp
  ultimately show ?case by simp
qed

lemma consecutive_concat:
  "consecutive a rgs b \<Longrightarrow> 0 \<le> a \<Longrightarrow>
   concat (map (range_rows m) rgs) = map ((!) (rows m)) [nat a..<nat b]"
proof (induction rgs arbitrary: a)
  case Nil
  then show ?case by simp
next
  case (Cons rg rgs)
  from Cons.prems have c: "consecutive (snd rg) rgs b" and s: "fst rg = a" "fst rg \<le> snd rg"
    by simp_all
  have le: "snd rg \<le> b" by (rule consecutive_le[OF c])
  have "concat (map (range_rows m) rgs) = map ((!) (rows m)) [nat (snd rg)..<nat b]"
    using Cons.IH[OF c] s Cons.prems by simp
  moreover have "[nat a..<nat b] = [nat a..<nat (snd rg)] @ [nat (snd rg)..<nat b]"
    using s le Cons.prems(2) upt_add_eq_append[of "nat a" "nat (snd rg)" "nat b - nat (snd rg)"]
    by simp
  moreover have "range_rows m rg = map ((!) (rows m)) [nat a..<nat (snd rg)]"
    by (simp add: range_rows_def s)
  ultimately show ?case by simp
qed

text \<open>
  Under the invariant of the range table, when no range of the table is empty,
  \<open>reader[k, 'key']\<close> returns for every key of the table, and the rows returned for
  the keys in the order of the table, one after the other, are the rows of the loaded
  matrix.
\<close>

lemma all_keys_reconstruct_nonempty:
  assumes "p_activations r = Some a" and "activation_ranges w r = (t, r')"
    and "range_table_invariant t (length (rows a))"
    and "list_all (\<lambda>rg. fst rg < snd rg) (map snd t)"
  shows "\<exists>parts. map (\<lambda>k. getitem w r (Tuple (IntIndex k) [StrArg ''key''])) (map fst t)
                   = map (\<lambda>p. (Inr p, r')) parts
               \<and> concat (map rows parts) = rows a"
proof -
  from assms(3) have d: "distinct (map fst t)"
    and c: "consecutive 0 (map snd t) (int (length (rows a)))"
    by (simp_all add: range_table_invariant_def)
  have ins: "list_all (nonempty_range_in a) (map snd t)"
    using consecutive_nonempty_ranges[where m = a, OF c assms(4)] by simp
  let ?parts = "map (\<lambda>(k, rg). a\<lparr>rows := range_rows a rg\<rparr>) t"
  have "getitem w r (Tuple (IntIndex k) [StrArg ''key''])
          = (Inr (a\<lparr>rows := range_rows a rg\<rparr>), r')"
    if "(k, rg) \<in> set t" for k rg
  proof -
    from that d have m: "map_of t k = Some rg" by simp
    from that ins have "nonempty_range_in a rg" by (auto simp: list_all_iff)
    then have "getitem w r (Tuple (SeqIndex (ListIndex [k])) [StrArg ''key''])
             = (Inr (a\<lparr>rows := concat (map (range_rows a) [rg])\<rparr>), r')"
      using assms(1,2) m by (intro getitem_key_list) simp_all
    then show ?thesis by (simp add: getitem_int_as_list)
  qed
  then have 1: "map (\<lambda>k. getitem w r (Tuple (IntIndex k) [StrArg ''key''])) (map fst t)
                   = map (\<lambda>p. (Inr p, r')) ?parts"
    by auto
  have "concat (map rows ?parts) = concat (map (range_rows a) (map snd t))"
    by (simp add: comp_def case_prod_unfold)
  also have "\<dots> = map ((!) (rows a)) [nat 0..<nat (int (length (rows a)))]"
    by (rule consecutive_concat[OF c]) simp
  also have "\<dots> = rows a" by (simp add: map_nth)
  finally show ?thesis using 1 by blast
qed

text \<open>
  C6. The claim asks for the whole matrix under the invariant of the range table alone.
  A table with an empty range keeps the invariant (no gap, no overlap), and the code
  fails on the key of that range as it does in C1: in the example with the table
  \<open>{0: (0, 3), 1: (3, 3), 5: (3, 8)}\<close> the lookups of the keys 0 and 5 return the
  eight rows of the matrix between them, and the lookup of the key 1 raises an
  \<open>IndexError\<close> where the claim has it return no row.
\<close>

theorem all_keys_empty_range:
  "range_table_invariant empty_sentence_ranges (length (rows example_matrix))
   \<and> map (\<lambda>k. fst (getitem empty_sentence_world example_reader
                     (Tuple (IntIndex k) [StrArg ''key''])))
         (map fst empty_sentence_ranges)
       = [Inr \<lparr>shape1 = 2, rows = [[0, 10], [1, 11], [2, 12]]\<rparr>,
          Inl IndexError,
          Inr \<lparr>shape1 = 2, rows = [[3, 13], [4, 14], [5, 15], [6, 16], [7, 17]]\<rparr>]"
  by code_simp

subsection \<open>A slice of keys that stops at 0\<close>

lemma stop_zero_ranges:
  "create_range_from_key w r (SeqIndex (SliceIndex (Slice a (Some 0) c)))
     = create_range_from_key w r (SeqIndex (SliceIndex (Slice a None c)))"
   by (simp add: create_range_from_key_def truthy_def)

lemma stop_zero_getitem:
  "getitem w r (Tuple (SeqIndex (SliceIndex (Slice a (Some 0) c))) [StrArg ''key''])
     = getitem w r (Tuple (SeqIndex (SliceIndex (Slice a None c))) [StrArg ''key''])"
   by (simp add: getitem_def parse_key_def wrap_int_simps stop_zero_ranges split: option.splits)

lemma stop_zero_all:
  assumes "c = None \<or> c = Some 1" "activation_ranges w r = (t, r')" "t \<noteq> []"
  shows "create_range_from_key w r (SeqIndex (SliceIndex (Slice a (Some 0) c)))
     = (Inr (map snd (filter (\<lambda>(k, rg). (case a of None \<Rightarrow> 0 | Some s \<Rightarrow> s) \<le> k) t)), r')"
proof -
  have "k < Max (set (map fst t)) + 1" if "(k, rg) \<in> set t" for k rg
  proof -
    from that have "k \<in> set (map fst t)" by force
    then have "k \<le> Max (set (map fst t))" by (intro Max_ge) simp_all
    then show ?thesis by simp
  qed
  then have "filter (\<lambda>(k, rg). s \<le> k \<and> k < Max (set (map fst t)) + 1) t
              = filter (\<lambda>(k, rg). s \<le> k) t" for s
    by (intro filter_cong) auto
  then show ?thesis using assms
    by (cases a) (auto simp: create_range_from_key_def truthy_def
      activation_ranges_idem[OF assms(2)])
qed

text \<open>
  C10. A slice of keys whose stop is the int 0 is looked up as the slice without a stop:
  \<open>_create_range_from_key\<close> and \<open>__getitem__\<close> return what they return for that slice,
  and on a table that is not empty, for a step that is absent or 1, the ranges are those
  of every key that is at least the start (0 when the start is absent).
\<close>

theorem stop_zero_is_absent:
  assumes "c = None \<or> c = Some 1" and "activation_ranges w r = (t, r')" and "t \<noteq> []"
  shows "create_range_from_key w r (SeqIndex (SliceIndex (Slice a (Some 0) c)))
           = create_range_from_key w r (SeqIndex (SliceIndex (Slice a None c)))
       \<and> create_range_from_key w r (SeqIndex (SliceIndex (Slice a (Some 0) c)))
           = (Inr (map snd (filter (\<lambda>(k, rg). (case a of None \<Rightarrow> 0 | Some s \<Rightarrow> s) \<le> k) t)),
              r')
       \<and> getitem w r (Tuple (SeqIndex (SliceIndex (Slice a (Some 0) c))) [StrArg ''key''])
           = getitem w r (Tuple (SeqIndex (SliceIndex (Slice a None c))) [StrArg ''key''])"
  using stop_zero_ranges stop_zero_all[OF assms] stop_zero_getitem by blast

theorem stop_zero_is_absent_witness:
  "example_ranges \<noteq> []
   \<and> fst (create_range_from_key example_world example_reader
            (SeqIndex (SliceIndex (Slice (Some 1) (Some 0) None))))
       = Inr [(3, 5), (5, 8)]
   \<and> fst (getitem example_world example_reader
            (Tuple (SeqIndex (SliceIndex (Slice (Some 1) (Some 0) None))) [StrArg ''key'']))
       = fst (getitem example_world example_reader
            (Tuple (SeqIndex (SliceIndex (Slice (Some 1) None None))) [StrArg ''key'']))"
proof -
  have n: "example_ranges \<noteq> []" by (simp add: example_ranges_def)
  have c: "(None :: int option) = None \<or> (None :: int option) = Some 1" by simp
  have f: "map snd (filter (\<lambda>(k, rg). (case Some 1 of None \<Rightarrow> 0 | Some s \<Rightarrow> s) \<le> k)
             example_ranges) = [(3, 5), (5, 8)]"
    by (simp add: example_ranges_def)
  note t = stop_zero_is_absent[OF c example_ranges_loaded n, of "Some 1"]
  from t have "create_range_from_key example_world example_reader
               (SeqIndex (SliceIndex (Slice (Some 1) (Some 0) None)))
          = (Inr (map snd (filter (\<lambda>(k, rg). (case Some 1 of None \<Rightarrow> 0 | Some s \<Rightarrow> s) \<le> k)
             example_ranges)),
             example_reader\<lparr>p_activation_ranges := Some example_ranges,
                        opened := [ActivationsFile example_name, LabelsFile, RangesFile]\<rparr>)"
    by blast
  then have 1: "fst (create_range_from_key example_world example_reader
               (SeqIndex (SliceIndex (Slice (Some 1) (Some 0) None))))
          = Inr [(3, 5), (5, 8)]"
    unfolding f by simp
  from t have 2: "getitem example_world example_reader
            (Tuple (SeqIndex (SliceIndex (Slice (Some 1) (Some 0) None))) [StrArg ''key''])
          = getitem example_world example_reader
            (Tuple (SeqIndex (SliceIndex (Slice (Some 1) None None))) [StrArg ''key''])"
    by blast
  show ?thesis using n 1 2 by simp
qed

subsection \<open>The setter of \<open>activations\<close>\<close>

text \<open>
  C9. On a reader whose activation name is \<open>nm\<close> and whose matrix is loaded,
  \<open>reader.activations = None\<close> followed by \<open>reader.activations = nm\<close> leaves the cached
  matrix \<open>None\<close>: the second assignment raises nothing, changes nothing and opens no
  file, since the name of the reader is still \<open>nm\<close>.
\<close>

theorem reassign_same_name:
  assumes "activation_name r = Some nm" and "p_activations r = Some a"
  shows "(case set_activations w r None of (e1, r1) \<Rightarrow>
            (case set_activations w r1 (Some nm) of (e2, r2) \<Rightarrow>
               e1 = None \<and> e2 = None \<and> p_activations r2 = None
               \<and> r2 = r1 \<and> opened r2 = opened r \<and> activation_name r2 = Some nm))"
  using assms by (simp add: set_activations_def)

theorem reassign_same_name_witness:
  "activation_name example_reader = Some example_name
   \<and> p_activations example_reader = Some example_matrix
   \<and> p_activations
       (snd (set_activations example_world
               (snd (set_activations example_world example_reader None))
               (Some example_name))) = None"
proof -
  have n: "activation_name example_reader = Some example_name"
    and a: "p_activations example_reader = Some example_matrix"
    by (simp_all add: example_reader_def)
  from reassign_same_name[OF n a, of example_world]
  show ?thesis using n a by (auto split: prod.splits)
qed

subsection \<open>The check of the subset size\<close>

lemma data_len_opened:
  "data_len w r = (dl, r') \<Longrightarrow>
     (opened r' = opened r \<or> opened r' = opened r @ [LabelsFile])
     \<and> p_activations r' = p_activations r \<and> activation_name r' = activation_name r"
  by (auto simp: data_len_def labels_def split: if_splits option.splits)

text \<open>
  C8. A \<open>data_subset_size\<close> other than -1 that is not in \<open>(0, data_len]\<close> makes
  \<open>create_data_split\<close> fail on its assertion before it calls \<open>read_activations\<close>:
  the call opens no file but, at most, the file of labels that \<open>data_len\<close> reads, and
  leaves the cached matrix and the activation name as they were.
\<close>

theorem subset_size_checked_first:
  assumes "s \<noteq> - 1" and "\<not> (0 < s \<and> s \<le> fst (data_len w r))"
  shows "\<exists>r'. create_data_split w r nm s ratio = (Inl AssertionError, r')
            \<and> (opened r' = opened r \<or> opened r' = opened r @ [LabelsFile])
            \<and> p_activations r' = p_activations r \<and> activation_name r' = activation_name r"
proof (cases "0 < s")
  case True
  obtain dl r' where d: "data_len w r = (dl, r')" by (cases "data_len w r")
  with True assms have "create_data_split w r nm s ratio = (Inl AssertionError, r')"
    by (simp add: create_data_split_def check_subset_size_def)
  with data_len_opened[OF d] show ?thesis by simp
next
  case False
  with assms have "create_data_split w r nm s ratio = (Inl AssertionError, r)"
    by (simp add: create_data_split_def check_subset_size_def)
  then show ?thesis by simp
qed

theorem subset_size_checked_first_witness:
  "(9::int) \<noteq> - 1 \<and> \<not> (0 < (9::int) \<and> 9 \<le> fst (data_len example_world example_reader))
   \<and> (\<exists>r'. create_data_split example_world example_reader example_name 9 (9 / 10)
               = (Inl AssertionError, r')
            \<and> (opened r' = opened example_reader
                 \<or> opened r' = opened example_reader @ [LabelsFile])
            \<and> p_activations r' = p_activations example_reader
            \<and> activation_name r' = activation_name example_reader)"
proof -
  have h: "\<not> (0 < (9::int) \<and> 9 \<le> fst (data_len example_world example_reader))"
    by (simp add: data_len_def example_reader_def)
  have n: "(9::int) \<noteq> - 1" by simp
  from subset_size_checked_first[OF n h]
  show ?thesis using h by simp
qed

subsection \<open>Slices with a step\<close>

lemma py_range3_bounds_up:
  assumes "0 < c" "0 \<le> a" "b \<le> n" "i \<in> set (py_range3 a b c)"
  shows "0 \<le> i \<and> i < n"
proof -
  from assms obtain j where j: "i = a + int j * c" "j < nat ((b - a - 1) div c + 1)" "a < b"
    by (auto simp: py_range3_def split: if_splits)
  then have "int j \<le> (b - a - 1) div c" by linarith
  then have "int j * c \<le> ((b - a - 1) div c) * c"
    using assms(1) by (simp add: mult_right_mono)
  also have "\<dots> \<le> b - a - 1"
    using assms(1) by (metis div_mult_mod_eq add_increasing2 pos_mod_sign order_refl)
  finally have "i \<le> b - 1" using j by simp
  moreover have "0 \<le> int j * c" using assms(1) by simp
  ultimately show ?thesis using assms j by linarith
qed

lemma py_range3_bounds_down:
  assumes "c < 0" "a \<le> n - 1" "- 1 \<le> b" "i \<in> set (py_range3 a b c)"
  shows "0 \<le> i \<and> i < n"
proof -
  from assms obtain j where j: "i = a + int j * c" "j < nat ((a - b - 1) div (- c) + 1)" "b < a"
    by (auto simp: py_range3_def split: if_splits)
  then have "int j \<le> (a - b - 1) div (- c)" by linarith
  then have "int j * (- c) \<le> ((a - b - 1) div (- c)) * (- c)"
    using assms(1) by (simp add: mult_right_mono)
  also have "\<dots> \<le> a - b - 1"
    using assms(1) by (metis div_mult_mod_eq add_increasing2 pos_mod_sign order_refl neg_0_less_iff_less)
  finally have "b + 1 \<le> i" using j by simp
  moreover have "int j * c \<le> 0" using assms(1) by (simp add: mult_nonneg_nonpos)
  ultimately show ?thesis using assms j by linarith
qed

lemma slice_indices_bounds:
  assumes "slice_indices sl n = Inr (a, b, c)" "i \<in> set (py_range3 a b c)"
  shows "0 \<le> i \<and> i < int n"
proof (cases "0 < c")
  case True
  with assms(1) have "0 \<le> a" "b \<le> int n"
    by (auto simp: slice_indices_def adjust_bound_def Let_def
        split: py_slice.splits option.splits if_splits)
  from py_range3_bounds_up[OF True this assms(2)] show ?thesis .
next
  case False
  with assms have c: "c < 0"
    by (auto simp: slice_indices_def Let_def split: py_slice.splits option.splits if_splits)
  with assms(1) have "a \<le> int n - 1" "- 1 \<le> b"
    by (auto simp: slice_indices_def adjust_bound_def Let_def
        split: py_slice.splits option.splits if_splits)
  from py_range3_bounds_down[OF c this assms(2)] show ?thesis .
qed

lemma np_slice_as_take:
  assumes "slice_indices sl (length xs) = Inr (a, b, c)"
  shows "np_slice xs sl = np_take xs (py_range3 a b c)"
proof -
  have "list_all (in_bounds (length xs)) (py_range3 a b c)"
    using slice_indices_bounds[OF assms] by (fastforce simp: list_all_iff in_bounds_def)
  moreover have "map (\<lambda>i. xs ! nat i) (py_range3 a b c)
     = map (\<lambda>i. xs ! nat (if i < 0 then i + int (length xs) else i)) (py_range3 a b c)"
    using slice_indices_bounds[OF assms] by (intro map_cong) fastforce+
  ultimately show ?thesis by (simp add: np_slice_def np_take_def assms)
qed

lemma slice_indices_step:
  "c \<noteq> 0 \<Longrightarrow> \<exists>x y. slice_indices (Slice a b (Some c)) n = Inr (x, y, c)"
  by (simp add: slice_indices_def Let_def)

lemma slice_indices_step0:
  "slice_indices (Slice a b (Some 0)) n = Inl ValueError"
  by (simp add: slice_indices_def Let_def)

lemma np_slice_positions:
  "c \<noteq> 0 \<Longrightarrow> np_slice xs (Slice a b (Some c)) = np_take xs (slice_positions (Slice a b (Some c)) (length xs))"
  using slice_indices_step[of c a b "length xs"] np_slice_as_take[of "Slice a b (Some c)" xs]
  by (auto simp: slice_positions_def)

text \<open>
  C3, as the code has it. In key mode a slice with a step other than 1 fails on the
  assertion of \<open>_create_range_from_key\<close>. Position mode has no such check: the slice
  is applied to the array of ranges, so that a step other than 0 selects the ranges at
  the positions of the slice, as the list of these positions does, and a step of 0 is
  numpy's \<open>ValueError\<close>.
\<close>

theorem stepped_slice:
  assumes "c \<noteq> 1" and "activation_ranges w r = (t, r')"
  shows "fst (getitem w r (Tuple (SeqIndex (SliceIndex (Slice a b (Some c)))) [StrArg ''key'']))
           = Inl AssertionError
       \<and> getitem w r (Plain (SeqIndex (SliceIndex (Slice a b (Some c)))))
           = (if c = 0
              then (if p_activations r = None then (Inl AssertionError, r) else (Inl ValueError, r'))
              else getitem w r (Plain (SeqIndex (ListIndex
                     (slice_positions (Slice a b (Some c)) (length t))))))"
proof -
  have 1: "fst (getitem w r (Tuple (SeqIndex (SliceIndex (Slice a b (Some c)))) [StrArg ''key'']))
           = Inl AssertionError"
    using assms(1)
    by (simp add: getitem_def parse_key_def wrap_int_simps create_range_from_key_def
        split: option.splits)
  have 2: "getitem w r (Plain (SeqIndex (SliceIndex (Slice a b (Some 0)))))
             = (if p_activations r = None then (Inl AssertionError, r) else (Inl ValueError, r'))"
    by (simp add: getitem_def parse_key_def wrap_int_simps assms(2) np_getitem_def np_slice_def
        slice_indices_step0 split: option.splits)
  have 3: "getitem w r (Plain (SeqIndex (SliceIndex (Slice a b (Some c)))))
             = getitem w r (Plain (SeqIndex (ListIndex
                     (slice_positions (Slice a b (Some c)) (length t)))))" if "c \<noteq> 0"
    using np_slice_positions[OF that, of "map snd t" a b]
    by (simp add: getitem_def parse_key_def wrap_int_simps assms(2) np_getitem_def
        split: option.splits)
  show ?thesis using 1 2 3 by simp
qed

text \<open>
  In the example, \<open>reader[::2]\<close> returns the rows of the first and of the third
  sentence.
\<close>

theorem stepped_slice_counterexample:
  "fst (getitem example_world example_reader
          (Plain (SeqIndex (SliceIndex (Slice None None (Some 2))))))
     = Inr \<lparr>shape1 = 2, rows = [[0, 10], [1, 11], [2, 12], [5, 15], [6, 16], [7, 17]]\<rparr>"
  by code_simp

theorem stepped_slice_witness:
  "(2::int) \<noteq> 1
   \<and> fst (getitem example_world example_reader
            (Tuple (SeqIndex (SliceIndex (Slice None None (Some 2)))) [StrArg ''key'']))
       = Inl AssertionError
   \<and> getitem example_world example_reader
        (Plain (SeqIndex (SliceIndex (Slice None None (Some 2)))))
       = getitem example_world example_reader (Plain (SeqIndex (ListIndex [0, 2])))"
proof -
  have n: "(2::int) \<noteq> 1" by simp
  have p: "slice_positions (Slice None None (Some 2)) (length example_ranges) = [0, 2]"
    by (simp add: example_ranges_def slice_positions_def slice_indices_def py_range3_def
        upt_conv_Cons)
  from stepped_slice[OF n example_ranges_loaded, of None None]
  show ?thesis unfolding p by simp
qed

subsection \<open>Reading the dumps\<close>

lemma np_setitem_slice_error:
  "np_setitem_slice w a n sen = Inl e \<Longrightarrow> e = ValueError"
  by (auto simp: np_setitem_slice_def Let_def split: if_splits)

lemma np_setitem_slice_Inr:
  assumes "np_setitem_slice w a n sen = Inr a'"
  shows "shape1 a' = shape1 a" "length (rows a') = length (rows a)"
    "shape1 sen = shape1 a \<or> shape1 sen = 1"
    "2 \<le> length (rows sen) \<Longrightarrow> n + length (rows sen) \<le> length (rows a)"
proof -
  define k where "k = min (n + length (rows sen)) (length (rows a)) - min n (length (rows a))"
  define mid where "mid = map (\<lambda>j. broadcast_row w (shape1 a)
                          (rows sen ! (if length (rows sen) = k then j else 0))) [0..<k]"
  define res where "res = a\<lparr>rows := take (min n (length (rows a))) (rows a) @ mid
                   @ drop (min (n + length (rows sen)) (length (rows a))) (rows a)\<rparr>"
  have eq: "np_setitem_slice w a n sen
          = (if (length (rows sen) = k \<or> length (rows sen) = 1)
                \<and> (shape1 sen = shape1 a \<or> shape1 sen = 1)
             then Inr res else Inl ValueError)"
    unfolding res_def mid_def k_def by (simp add: np_setitem_slice_def Let_def)
  from assms eq have c: "length (rows sen) = k \<or> length (rows sen) = 1"
    "shape1 sen = shape1 a \<or> shape1 sen = 1" and a': "a' = res"
    by (auto split: if_splits)
  have lm: "length mid = k" by (simp add: mid_def)
  show "shape1 a' = shape1 a" by (simp add: a' res_def)
  show "length (rows a') = length (rows a)"
    unfolding a' res_def by (simp add: lm) (simp add: k_def)
  show "shape1 sen = shape1 a \<or> shape1 sen = 1" by (rule c(2))
  show "n + length (rows sen) \<le> length (rows a)" if "2 \<le> length (rows sen)"
    using c(1) that by (simp add: k_def)
qed

lemma map_broadcast_rows:
  assumes "well_shaped sen"
  shows "map (\<lambda>j. broadcast_row w (shape1 sen) (rows sen ! j)) [0..<length (rows sen)]
          = map (map (astype_float32 w)) (rows sen)"
proof -
  have "map (\<lambda>j. broadcast_row w (shape1 sen) (rows sen ! j)) [0..<length (rows sen)]
          = map (broadcast_row w (shape1 sen)) (map ((!) (rows sen)) [0..<length (rows sen)])"
    by (simp add: comp_def)
  also have "\<dots> = map (broadcast_row w (shape1 sen)) (rows sen)"
    by (simp only: map_nth)
  also have "\<dots> = map (map (astype_float32 w)) (rows sen)"
    using assms by (intro map_cong) (auto simp: well_shaped_def list_all_iff broadcast_row_def)
  finally show ?thesis .
qed

lemma np_setitem_slice_fits:
  assumes "shape1 sen = shape1 a" "well_shaped sen" "n + length (rows sen) \<le> length (rows a)"
  shows "np_setitem_slice w a n sen
           = Inr (a\<lparr>rows := take n (rows a) @ map (map (astype_float32 w)) (rows sen)
                       @ drop (n + length (rows sen)) (rows a)\<rparr>)"
proof -
  have k: "min (n + length (rows sen)) (length (rows a)) - min n (length (rows a))
             = length (rows sen)"
    and m: "min n (length (rows a)) = n"
      "min (n + length (rows sen)) (length (rows a)) = n + length (rows sen)"
    using assms(3) by simp_all
  show ?thesis
    unfolding np_setitem_slice_def Let_def k m
    using map_broadcast_rows[OF assms(2), of w] by (simp add: assms(1))
qed

lemma read_loop_error:
  "fst (read_loop w r ds (Some h) (Some a) n) = Inl e \<Longrightarrow> e = ValueError"
proof (induction ds arbitrary: a n)
  case Nil
  then show ?case by simp
next
  case (Cons d ds)
  then show ?case
    by (auto split: sum.splits dest: np_setitem_slice_error)
qed

lemma read_loop_Inr_shape:
  "read_loop w r ds (Some h) (Some a) n = (Inr res, r') \<Longrightarrow> d \<in> set ds
     \<Longrightarrow> shape1 d = shape1 a \<or> shape1 d = 1"
proof (induction ds arbitrary: a n)
  case Nil
  then show ?case by simp
next
  case (Cons x ds)
  from Cons.prems(1) obtain a' where s: "np_setitem_slice w a n x = Inr a'"
    and l: "read_loop w r ds (Some h) (Some a') (n + length (rows x)) = (Inr res, r')"
    by (auto split: sum.splits)
  show ?case
  proof (cases "d = x")
    case True
    with np_setitem_slice_Inr(3)[OF s] show ?thesis by simp
  next
    case False
    with Cons.prems(2) have "d \<in> set ds" by simp
    from Cons.IH[OF l this] np_setitem_slice_Inr(1)[OF s] show ?thesis by simp
  qed
qed

lemma read_loop_Inr_rows:
  "read_loop w r (pre @ d # post) (Some h) (Some a) n = (Inr res, r')
     \<Longrightarrow> 2 \<le> length (rows d)
     \<Longrightarrow> n + total_rows pre + length (rows d) \<le> length (rows a)"
proof (induction pre arbitrary: a n)
  case Nil
  from Nil.prems(1) obtain a' where s: "np_setitem_slice w a n d = Inr a'"
    by (auto split: sum.splits)
  from np_setitem_slice_Inr(4)[OF s Nil.prems(2)] show ?case by (simp add: total_rows_def)
next
  case (Cons x pre)
  from Cons.prems(1) obtain a' where s: "np_setitem_slice w a n x = Inr a'"
    and l: "read_loop w r (pre @ d # post) (Some h) (Some a') (n + length (rows x)) = (Inr res, r')"
    by (auto split: sum.splits)
  from Cons.IH[OF l Cons.prems(2)] np_setitem_slice_Inr(2)[OF s]
  show ?case by (simp add: total_rows_def)
qed

lemma read_loop_fits:
  "list_all (\<lambda>d. shape1 d = shape1 a \<and> well_shaped d) ds
     \<Longrightarrow> n + total_rows ds \<le> length (rows a)
     \<Longrightarrow> read_loop w r ds (Some h) (Some a) n
           = (Inr (Some (a\<lparr>rows := take n (rows a) @ stored_rows w ds
                                   @ drop (n + total_rows ds) (rows a)\<rparr>)), r)"
proof (induction ds arbitrary: a n)
  case Nil
  then show ?case by (simp add: total_rows_def stored_rows_def)
next
  case (Cons d ds)
  let ?i = "length (rows d)"
  let ?a = "a\<lparr>rows := take n (rows a) @ map (map (astype_float32 w)) (rows d)
                       @ drop (n + ?i) (rows a)\<rparr>"
  from Cons.prems have d: "shape1 d = shape1 a" "well_shaped d"
    and fit: "n + ?i \<le> length (rows a)" "n + ?i + total_rows ds \<le> length (rows a)"
    by (simp_all add: total_rows_def)
  have s: "np_setitem_slice w a n d = Inr ?a"
    by (rule np_setitem_slice_fits[OF d fit(1)])
  have len: "length (rows ?a) = length (rows a)" using fit(1) by simp
  have "read_loop w r ds (Some h) (Some ?a) (n + ?i)
          = (Inr (Some (?a\<lparr>rows := take (n + ?i) (rows ?a) @ stored_rows w ds
                                   @ drop (n + ?i + total_rows ds) (rows ?a)\<rparr>)), r)"
    using Cons.prems fit by (intro Cons.IH) (simp_all add: total_rows_def)
  moreover have "take (n + ?i) (rows ?a) = take n (rows a) @ map (map (astype_float32 w)) (rows d)"
    using fit(1) by simp
  moreover have "drop (n + ?i + total_rows ds) (rows ?a)
                   = drop (n + ?i + total_rows ds) (rows a)"
    using fit by (simp add: ac_simps)
  ultimately show ?case
    by (simp add: s stored_rows_def total_rows_def add.assoc)
qed

lemma np_empty_cases:
  "0 \<le> dl \<Longrightarrow> \<exists>E. np_empty w dl h = Inr E \<and> shape1 E = h \<and> length (rows E) = nat dl"
  "dl < 0 \<Longrightarrow> np_empty w dl h = Inl ValueError"
  by (simp_all add: np_empty_def)

lemma read_loop_start:
  assumes "data_len w r = (dl, r1)" "np_empty w dl (shape1 c) = Inr E"
  shows "read_loop w r (c # cs) None None 0 = read_loop w r1 (c # cs) (Some (shape1 c)) (Some E) 0"
  using assms by simp

lemma read_loop_start_error:
  assumes "data_len w r = (dl, r1)" "np_empty w dl (shape1 c) = Inl e"
  shows "read_loop w r (c # cs) None None 0 = (Inl e, r1)"
  using assms by simp

lemma data_len_opened_update:
  "fst (data_len w (r\<lparr>opened := x\<rparr>)) = fst (data_len w r)"
  by (simp add: data_len_def labels_def split: option.splits)

lemma read_activations_rejects:
  assumes "activations_pickle w nm = Some dumps"
    and "\<And>h E res r1 r'. read_loop w r1 dumps (Some h) (Some E) 0 = (Inr res, r')
            \<Longrightarrow> shape1 E = shape1 (hd dumps) \<Longrightarrow> length (rows E) = nat (fst (data_len w r))
            \<Longrightarrow> 0 \<le> fst (data_len w r) \<Longrightarrow> False"
    and "dumps \<noteq> []"
  shows "fst (read_activations w r nm) = Inl ValueError"
proof -
  from assms(3) obtain c cs where dumps: "dumps = c # cs" by (cases dumps) auto
  let ?r0 = "r\<lparr>opened := opened r @ [ActivationsFile nm]\<rparr>"
  obtain dl r1 where d: "data_len w ?r0 = (dl, r1)" by (cases "data_len w ?r0")
  have dl: "dl = fst (data_len w r)"
    using d data_len_opened_update[where w = w and r = r and x = "opened r @ [ActivationsFile nm]"] by simp
  have ra: "read_activations w r nm = read_loop w ?r0 (c # cs) None None 0"
    by (simp add: read_activations_def assms(1) dumps)
  show ?thesis
  proof (cases "dl < 0")
    case True
    from read_loop_start_error[OF d np_empty_cases(2)[OF True]] show ?thesis
      by (simp add: ra)
  next
    case False
    then obtain E where E: "np_empty w dl (shape1 c) = Inr E" "shape1 E = shape1 c"
      "length (rows E) = nat dl"
      using np_empty_cases(1)[of dl w "shape1 c"] by auto
    have eq: "read_activations w r nm = read_loop w r1 dumps (Some (shape1 c)) (Some E) 0"
      using read_loop_start[OF d E(1)] by (simp add: ra dumps)
    show ?thesis
    proof (cases "read_loop w r1 dumps (Some (shape1 c)) (Some E) 0")
      case (Pair res r')
      show ?thesis
      proof (cases res)
        case (Inl e)
        with Pair read_loop_error[of w r1 dumps "shape1 c" E 0 e] show ?thesis
          by (simp add: eq)
      next
        case (Inr x)
        with Pair assms(2)[of r1 "shape1 c" E x r'] E False dl show ?thesis
          by (simp add: dumps)
      qed
    qed
  qed
qed

lemma read_activations_fits:
  assumes "activations_pickle w nm = Some dumps" and "dumps \<noteq> []"
    and "list_all (\<lambda>d. shape1 d = shape1 (hd dumps) \<and> well_shaped d) dumps"
    and "int (total_rows dumps) \<le> fst (data_len w r)"
  shows "\<exists>m. read_activations w r nm
               = (Inr (Some m), snd (data_len w (r\<lparr>opened := opened r @ [ActivationsFile nm]\<rparr>)))
            \<and> shape1 m = shape1 (hd dumps)
            \<and> length (rows m) = nat (fst (data_len w r))
            \<and> take (total_rows dumps) (rows m) = stored_rows w dumps"
proof -
  from assms(2) obtain c cs where dumps: "dumps = c # cs" by (cases dumps) auto
  let ?r0 = "r\<lparr>opened := opened r @ [ActivationsFile nm]\<rparr>"
  obtain dl r1 where d: "data_len w ?r0 = (dl, r1)" by (cases "data_len w ?r0")
  have dl: "dl = fst (data_len w r)"
    using d data_len_opened_update[where w = w and r = r and x = "opened r @ [ActivationsFile nm]"] by simp
  with assms(4) have "0 \<le> dl" by simp
  then obtain E where E: "np_empty w dl (shape1 c) = Inr E" "shape1 E = shape1 c"
      "length (rows E) = nat dl"
    using np_empty_cases(1)[of dl w "shape1 c"] by auto
  have fit: "0 + total_rows dumps \<le> length (rows E)"
    using assms(4) dl E(3) by simp
  have sh: "list_all (\<lambda>d. shape1 d = shape1 E \<and> well_shaped d) dumps"
    using assms(3) by (simp add: E(2) dumps)
  let ?m = "E\<lparr>rows := take 0 (rows E) @ stored_rows w dumps
                       @ drop (0 + total_rows dumps) (rows E)\<rparr>"
  have "read_activations w r nm = read_loop w r1 dumps (Some (shape1 c)) (Some E) 0"
    using read_loop_start[OF d E(1)] by (simp add: read_activations_def assms(1) dumps)
  also have "\<dots> = (Inr (Some ?m), r1)"
    by (rule read_loop_fits[OF sh fit])
  finally have "read_activations w r nm = (Inr (Some ?m), snd (data_len w ?r0))"
    by (simp add: d)
  moreover have "length (stored_rows w dumps) = total_rows dumps"
    by (simp add: stored_rows_def total_rows_def length_concat comp_def)
  then have "length (rows ?m) = nat (fst (data_len w r))"
      "take (total_rows dumps) (rows ?m) = stored_rows w dumps"
    using fit E(3) dl by simp_all
  moreover have "shape1 ?m = shape1 (hd dumps)" by (simp add: E(2) dumps)
  ultimately show ?thesis by blast
qed

text \<open>
  C4, as the code has it. \<open>read_activations\<close> compares neither the number of rows
  read with \<open>data_len\<close> nor the widths of the dumps; a dump is refused only by numpy,
  with a \<open>ValueError\<close>, when it cannot be broadcast into its slice of the matrix.
  So the call fails when a dump has a number of columns that is neither that of the
  first dump nor 1, and when a dump of two or more rows reaches beyond row \<open>data_len\<close>.
  Dumps of the width of the first one whose rows number at most \<open>data_len\<close>, also
  fewer, are loaded without an error: the matrix has \<open>data_len\<close> rows, and the rows
  read are its first rows.
\<close>

theorem read_activations_checks:
  assumes "activations_pickle w nm = Some dumps"
  shows "(\<forall>d. d \<in> set dumps \<and> shape1 d \<noteq> shape1 (hd dumps) \<and> shape1 d \<noteq> 1
            \<longrightarrow> fst (read_activations w r nm) = Inl ValueError)
       \<and> (\<forall>pre d post. dumps = pre @ d # post \<and> 2 \<le> length (rows d)
              \<and> fst (data_len w r) < int (total_rows pre + length (rows d))
            \<longrightarrow> fst (read_activations w r nm) = Inl ValueError)
       \<and> (dumps \<noteq> [] \<and> list_all (\<lambda>d. shape1 d = shape1 (hd dumps) \<and> well_shaped d) dumps
              \<and> int (total_rows dumps) \<le> fst (data_len w r)
            \<longrightarrow> (\<exists>m. fst (read_activations w r nm) = Inr (Some m)
                    \<and> shape1 m = shape1 (hd dumps)
                    \<and> length (rows m) = nat (fst (data_len w r))
                    \<and> take (total_rows dumps) (rows m) = stored_rows w dumps))"
proof (intro conjI allI impI)
  fix d assume a: "d \<in> set dumps \<and> shape1 d \<noteq> shape1 (hd dumps) \<and> shape1 d \<noteq> 1"
  show "fst (read_activations w r nm) = Inl ValueError"
  proof (rule read_activations_rejects[OF assms])
    show "dumps \<noteq> []" using a by auto
  next
    fix h E res r1 r'
    assume "read_loop w r1 dumps (Some h) (Some E) 0 = (Inr res, r')"
      and "shape1 E = shape1 (hd dumps)"
    with read_loop_Inr_shape[of w r1 dumps h E 0 res r' d] a show False by auto
  qed
next
  fix pre d post
  assume a: "dumps = pre @ d # post \<and> 2 \<le> length (rows d)
              \<and> fst (data_len w r) < int (total_rows pre + length (rows d))"
  show "fst (read_activations w r nm) = Inl ValueError"
  proof (rule read_activations_rejects[OF assms])
    show "dumps \<noteq> []" using a by auto
  next
    fix h E res r1 r'
    assume "read_loop w r1 dumps (Some h) (Some E) 0 = (Inr res, r')"
      and "length (rows E) = nat (fst (data_len w r))" and "0 \<le> fst (data_len w r)"
    with read_loop_Inr_rows[of w r1 pre d post h E 0 res r'] a show False by auto
  qed
next
  assume a: "dumps \<noteq> [] \<and> list_all (\<lambda>d. shape1 d = shape1 (hd dumps) \<and> well_shaped d) dumps
              \<and> int (total_rows dumps) \<le> fst (data_len w r)"
  with read_activations_fits[OF assms, of r]
  show "\<exists>m. fst (read_activations w r nm) = Inr (Some m)
                    \<and> shape1 m = shape1 (hd dumps)
                    \<and> length (rows m) = nat (fst (data_len w r))
                    \<and> take (total_rows dumps) (rows m) = stored_rows w dumps"
    by force
qed

text \<open>
  In the first variant of the example the file has 5 rows for 8 labels, and
  \<open>read_activations\<close> returns a matrix of 8 rows.
\<close>

theorem read_activations_checks_counterexample:
  "int (total_rows short_dumps) \<noteq> fst (data_len short_world init)
   \<and> activations_pickle short_world example_name = Some short_dumps
   \<and> fst (read_activations short_world init example_name)
       = Inr (Some \<lparr>shape1 = 2,
                    rows = [[0, 10], [1, 11], [2, 12], [3, 13], [4, 14],
                            [0, 0], [0, 0], [0, 0]]\<rparr>)"
  by code_simp

theorem read_activations_checks_witness:
  "activations_pickle short_world example_name = Some short_dumps
   \<and> int (total_rows short_dumps) \<le> fst (data_len short_world init)
   \<and> (\<exists>m. fst (read_activations short_world init example_name) = Inr (Some m)
          \<and> length (rows m) = 8
          \<and> take 5 (rows m) = [[0, 10], [1, 11], [2, 12], [3, 13], [4, 14]])
   \<and> activations_pickle wide_world example_name = Some wide_dumps
   \<and> fst (read_activations wide_world init example_name) = Inl ValueError
   \<and> activations_pickle few_labels_world example_name = Some example_dumps
   \<and> fst (read_activations few_labels_world init example_name) = Inl ValueError"
proof -
  have s: "activations_pickle short_world example_name = Some short_dumps"
    by (simp add: short_world_def example_world_def)
  have sd: "fst (data_len short_world init) = 8"
    by (simp add: data_len_def labels_def init_def short_world_def example_world_def
        example_labels_def)
  have st: "total_rows short_dumps = 5"
    by (simp add: total_rows_def short_dumps_def)
  have ss: "short_dumps \<noteq> []
      \<and> list_all (\<lambda>d. shape1 d = shape1 (hd short_dumps) \<and> well_shaped d) short_dumps
      \<and> int (total_rows short_dumps) \<le> fst (data_len short_world init)"
    unfolding sd st by (simp add: short_dumps_def well_shaped_def)
  have sr: "stored_rows short_world short_dumps
              = [[0, 10], [1, 11], [2, 12], [3, 13], [4, 14]]"
    by (simp add: stored_rows_def short_dumps_def short_world_def example_world_def)
  from read_activations_checks[OF s, of init] ss
  have 1: "\<exists>m. fst (read_activations short_world init example_name) = Inr (Some m)
          \<and> length (rows m) = 8
          \<and> take 5 (rows m) = [[0, 10], [1, 11], [2, 12], [3, 13], [4, 14]]"
    unfolding sd st sr by auto
  have w: "activations_pickle wide_world example_name = Some wide_dumps"
    by (simp add: wide_world_def example_world_def)
  have wd: "\<lparr>shape1 = 3, rows = [[3, 13, 23], [4, 14, 24]]\<rparr> \<in> set wide_dumps
      \<and> shape1 \<lparr>shape1 = 3, rows = [[3, 13, 23], [4, 14, 24 :: nat]]\<rparr> \<noteq> shape1 (hd wide_dumps)
      \<and> shape1 \<lparr>shape1 = 3, rows = [[3, 13, 23], [4, 14, 24 :: nat]]\<rparr> \<noteq> 1"
    by (simp add: wide_dumps_def)
  from read_activations_checks[OF w, of init] wd
  have 2: "fst (read_activations wide_world init example_name) = Inl ValueError"
    by blast
  have f: "activations_pickle few_labels_world example_name = Some example_dumps"
    by (simp add: few_labels_world_def example_world_def)
  have fd: "example_dumps = [\<lparr>shape1 = 2, rows = [[0, 10], [1, 11], [2, 12]]\<rparr>]
               @ \<lparr>shape1 = 2, rows = [[3, 13], [4, 14]]\<rparr>
               # [\<lparr>shape1 = 2, rows = [[5, 15], [6, 16], [7, 17]]\<rparr>]
      \<and> 2 \<le> length (rows \<lparr>shape1 = 2, rows = [[3, 13], [4, 14 :: nat]]\<rparr>)
      \<and> fst (data_len few_labels_world init)
          < int (total_rows [\<lparr>shape1 = 2, rows = [[0, 10], [1, 11], [2, 12 :: nat]]\<rparr>]
                 + length (rows \<lparr>shape1 = 2, rows = [[3, 13], [4, 14 :: nat]]\<rparr>))"
    by (simp add: example_dumps_def total_rows_def data_len_def labels_def init_def
        few_labels_world_def example_world_def)
  from read_activations_checks[OF f, of init] fd
  have 3: "fst (read_activations few_labels_world init example_name) = Inl ValueError"
    by blast
  show ?thesis using s ss 1 w 2 f 3 by simp
qed

subsection \<open>The data split\<close>

lemma py_int_nonneg: "0 \<le> x \<Longrightarrow> py_int x = \<lfloor>x\<rfloor>"
  by (simp add: py_int_def)

lemma map_nth_upt_take_drop:
  "b \<le> length xs \<Longrightarrow> map ((!) xs) [a..<b] = take (b - a) (drop a xs)"
  by (auto simp: list_eq_iff_nth_eq)

lemma np_slice_upto:
  assumes "0 \<le> k"
  shows "np_slice xs (Slice None (Some k) None) = Inr (take (nat k) xs)"
proof -
  let ?b = "min k (int (length xs))"
  have si: "slice_indices (Slice None (Some k) None) (length xs) = Inr (0, ?b, 1)"
    using assms by (simp add: slice_indices_def adjust_bound_def Let_def)
  have "py_range3 0 ?b 1 = map int [0..<nat ?b]"
    by (auto simp: py_range3_def min_def)
  then have "map (\<lambda>i. xs ! nat i) (py_range3 0 ?b 1) = map ((!) xs) [0..<nat ?b]"
    by (simp add: comp_def)
  also have "\<dots> = take (nat ?b) xs"
    using map_nth_upt_take_drop[of "nat ?b" xs 0] by simp
  also have "\<dots> = take (nat k) xs"
    using assms by (simp add: min_def)
  finally show ?thesis by (simp add: np_slice_def si)
qed

lemma np_slice_from:
  assumes "0 \<le> k"
  shows "np_slice xs (Slice (Some k) None None) = Inr (drop (nat k) xs)"
proof -
  let ?a = "min k (int (length xs))"
  let ?n = "int (length xs)"
  have si: "slice_indices (Slice (Some k) None None) (length xs) = Inr (?a, ?n, 1)"
    using assms by (simp add: slice_indices_def adjust_bound_def Let_def)
  have "py_range3 ?a ?n 1 = map (\<lambda>j. ?a + int j) [0..<nat (?n - ?a)]"
    by (auto simp: py_range3_def)
  then have "map (\<lambda>i. xs ! nat i) (py_range3 ?a ?n 1)
               = map (\<lambda>j. xs ! (nat ?a + j)) [0..<length xs - nat ?a]"
    using assms by (auto simp: comp_def nat_add_distrib nat_diff_distrib min_def)
  also have "\<dots> = drop (nat ?a) xs"
    by (auto simp: list_eq_iff_nth_eq)
  also have "\<dots> = drop (nat k) xs"
    using assms by (simp add: min_def)
  finally show ?thesis by (simp add: np_slice_def si)
qed

lemma split_indices_ok:
  assumes "random_choice w sz = Inr perm" "0 \<le> float_mul w (real_of_int sz) ratio"
  shows "split_indices w sz ratio
           = Inr (take (nat \<lfloor>float_mul w (real_of_int sz) ratio\<rfloor>) perm,
                  drop (nat \<lfloor>float_mul w (real_of_int sz) ratio\<rfloor>) perm)"
proof -
  have "0 \<le> \<lfloor>float_mul w (real_of_int sz) ratio\<rfloor>" using assms(2) by simp
  then show ?thesis
    by (simp add: split_indices_def py_int_nonneg[OF assms(2)] assms(1)
        np_slice_upto np_slice_from Let_def)
qed

lemma np_take_nonneg:
  assumes "\<forall>i\<in>set js. 0 \<le> i \<and> i < int (length xs)"
  shows "np_take xs js = Inr (map (\<lambda>i. xs ! nat i) js)"
proof -
  have "list_all (in_bounds (length xs)) js"
    using assms by (fastforce simp: list_all_iff in_bounds_def)
  moreover have "map (\<lambda>i. xs ! nat (if i < 0 then i + int (length xs) else i)) js
                   = map (\<lambda>i. xs ! nat i) js"
    using assms by (intro map_cong) fastforce+
  ultimately show ?thesis by (simp add: np_take_def)
qed

lemma labels_idem: "labels w r = (ls, r1) \<Longrightarrow> labels w r1 = (ls, r1)"
  by (auto simp: labels_def split: option.splits)

lemma keep_data_len:
  "fst (data_len w (snd (data_len w r))) = fst (data_len w r)"
  "fst (labels w (snd (data_len w r))) = fst (labels w r)"
  by (auto simp: data_len_def labels_def split: option.splits)

lemma keep_opened:
  "fst (labels w (r\<lparr>opened := x\<rparr>)) = fst (labels w r)"
  by (simp add: labels_def split: option.splits)

lemma gather_split_ok:
  assumes "\<forall>i\<in>set tr. 0 \<le> i \<and> i < int n" "\<forall>i\<in>set te. 0 \<le> i \<and> i < int n"
    and "length (rows m) = n" and "length (fst (labels w r)) = n"
  shows "gather_split w r (Some m) tr te
           = (Inr \<lparr>train_x = m\<lparr>rows := map (\<lambda>i. rows m ! nat i) tr\<rparr>,
                   train_y = map (\<lambda>i. fst (labels w r) ! nat i) tr,
                   test_x = m\<lparr>rows := map (\<lambda>i. rows m ! nat i) te\<rparr>,
                   test_y = map (\<lambda>i. fst (labels w r) ! nat i) te\<rparr>,
              snd (labels w r))"
proof -
  obtain ls r1 where l: "labels w r = (ls, r1)" by (cases "labels w r")
  note l1 = labels_idem[OF l]
  have n: "length ls = n" using assms(4) l by simp
  have a: "np_take (rows m) tr = Inr (map (\<lambda>i. rows m ! nat i) tr)"
    "np_take (rows m) te = Inr (map (\<lambda>i. rows m ! nat i) te)"
    using assms by (simp_all add: np_take_nonneg)
  have b: "np_take ls tr = Inr (map (\<lambda>i. ls ! nat i) tr)"
    "np_take ls te = Inr (map (\<lambda>i. ls ! nat i) te)"
    using assms(1,2) n by (simp_all add: np_take_nonneg)
  show ?thesis
    by (simp add: gather_split_def np_getitem_array_def a b l l1)
qed

text \<open>
  C5. A call of \<open>create_data_split\<close> is valid when the subset size is -1 or lies in
  \<open>(0, data_len]\<close>, the file of the activation holds dumps of one width that fit into
  \<open>data_len\<close> rows, there is a label for every row, \<open>np.random.choice\<close> returns a
  sample without replacement of all of \<open>range(data_size)\<close>, and the float product
  \<open>data_size * train_test_split\<close> is not negative. Such a call returns; the sample is
  cut at the floor of that product into the train and the test indices, which have no
  index in common; and the train and test inputs together have \<open>data_size\<close> rows.
\<close>

theorem create_data_split_partition:
  assumes "s = - 1 \<or> (0 < s \<and> s \<le> fst (data_len w r))"
    and "activations_pickle w nm = Some dumps" and "dumps \<noteq> []"
    and "list_all (\<lambda>d. shape1 d = shape1 (hd dumps) \<and> well_shaped d) dumps"
    and "int (total_rows dumps) \<le> fst (data_len w r)"
    and "int (length (fst (labels w r))) = fst (data_len w r)"
    and "sz = (if s = - 1 then fst (data_len w r) else s)"
    and "random_choice w sz = Inr perm" and "distinct perm" and "set perm = {0..<sz}"
    and "0 \<le> float_mul w (real_of_int sz) ratio"
  shows "\<exists>d r' tr te.
           create_data_split w r nm s ratio = (Inr d, r')
         \<and> split_indices w sz ratio = Inr (tr, te)
         \<and> tr = take (nat \<lfloor>float_mul w (real_of_int sz) ratio\<rfloor>) perm
         \<and> te = drop (nat \<lfloor>float_mul w (real_of_int sz) ratio\<rfloor>) perm
         \<and> length (rows (train_x d)) = length tr \<and> length (rows (test_x d)) = length te
         \<and> train_y d = map (\<lambda>i. fst (labels w r) ! nat i) tr
         \<and> test_y d = map (\<lambda>i. fst (labels w r) ! nat i) te
         \<and> length (rows (train_x d)) + length (rows (test_x d)) = nat sz
         \<and> set tr \<inter> set te = {}"
proof -
  define dl where "dl = fst (data_len w r)"
  define ls where "ls = fst (labels w r)"
  define k where "k = nat \<lfloor>float_mul w (real_of_int sz) ratio\<rfloor>"
  define r1 where "r1 = snd (check_subset_size w r s)"
  have c: "check_subset_size w r s = (True, r1)"
    using assms(1) unfolding r1_def
    by (auto simp: check_subset_size_def split: prod.splits)
  have r1: "r1 = r \<or> r1 = snd (data_len w r)"
    unfolding r1_def by (auto simp: check_subset_size_def split: prod.splits)
  then have i1: "fst (data_len w r1) = dl" "fst (labels w r1) = ls"
    by (auto simp: dl_def ls_def keep_data_len)
  define r2 where "r2 = snd (data_len w (r1\<lparr>opened := opened r1 @ [ActivationsFile nm]\<rparr>))"
  from read_activations_fits[OF assms(2,3,4), of r1] assms(5) i1
  obtain m where m: "read_activations w r1 nm = (Inr (Some m), r2)"
    "length (rows m) = nat dl"
    by (auto simp: dl_def r2_def)
  have i2: "fst (data_len w r2) = dl" "fst (labels w r2) = ls"
    using i1 by (simp_all add: r2_def keep_data_len data_len_opened_update keep_opened)
  define r3 where "r3 = (if s = - 1 then snd (data_len w r2) else r2)"
  have ds: "(if s = - 1 then data_len w r2 else (s, r2)) = (sz, r3)"
    using i2 assms(7) by (simp add: r3_def dl_def prod_eq_iff)
  have i3: "fst (labels w r3) = ls"
    using i2 by (simp add: r3_def keep_data_len)
  have sp: "split_indices w sz ratio = Inr (take k perm, drop k perm)"
    unfolding k_def by (rule split_indices_ok[OF assms(8,11)])
  have szb: "0 \<le> sz" "sz \<le> dl"
    using assms(1,5,7) by (auto simp: dl_def)
  have len: "length perm = nat sz"
    using distinct_card[OF assms(9)] assms(10) by simp
  have b: "\<forall>i\<in>set perm. 0 \<le> i \<and> i < int (nat dl)"
    using assms(10) szb by auto
  have bt: "\<forall>i\<in>set (take k perm). 0 \<le> i \<and> i < int (nat dl)"
    "\<forall>i\<in>set (drop k perm). 0 \<le> i \<and> i < int (nat dl)"
    using b by (auto dest: in_set_takeD in_set_dropD)
  have ll: "length (fst (labels w r3)) = nat dl"
    using assms(6) by (simp add: i3 ls_def dl_def)
  note g = gather_split_ok[OF bt m(2) ll]
  let ?d = "\<lparr>train_x = m\<lparr>rows := map (\<lambda>i. rows m ! nat i) (take k perm)\<rparr>,
                   train_y = map (\<lambda>i. fst (labels w r3) ! nat i) (take k perm),
                   test_x = m\<lparr>rows := map (\<lambda>i. rows m ! nat i) (drop k perm)\<rparr>,
                   test_y = map (\<lambda>i. fst (labels w r3) ! nat i) (drop k perm)\<rparr>"
  have "create_data_split w r nm s ratio = (Inr ?d, snd (labels w r3))"
    by (simp add: create_data_split_def c m(1) ds sp g)
  moreover have "set (take k perm) \<inter> set (drop k perm) = {}"
    using assms(9) by (metis append_take_drop_id distinct_append)
  moreover have "length (take k perm) + length (drop k perm) = nat sz"
    using len by simp
  ultimately show ?thesis
    unfolding k_def[symmetric] using sp by (simp add: i3 ls_def)
qed

theorem create_data_split_partition_witness:
  "activations_pickle example_world example_name = Some example_dumps
   \<and> int (total_rows example_dumps) \<le> fst (data_len example_world example_reader)
   \<and> random_choice example_world 8 = Inr [3, 0, 7, 1, 5, 2, 6, 4]
   \<and> (\<exists>d r'. create_data_split example_world example_reader example_name (- 1) (9 / 10)
                 = (Inr d, r')
          \<and> split_indices example_world 8 (9 / 10) = Inr ([3, 0, 7, 1, 5, 2, 6], [4])
          \<and> length (rows (train_x d)) = 7 \<and> length (rows (test_x d)) = 1
          \<and> length (rows (train_x d)) + length (rows (test_x d)) = 8
          \<and> set [3, 0, 7, 1, 5, 2, 6] \<inter> set [4 :: int] = {})"
proof -
  have v: "(- 1 :: int) = - 1 \<or> (0 < (- 1 :: int) \<and> - 1 \<le> fst (data_len example_world example_reader))"
    by simp
  have f: "activations_pickle example_world example_name = Some example_dumps"
    by (simp add: example_world_def)
  have n: "example_dumps \<noteq> []" by (simp add: example_dumps_def)
  have sh: "list_all (\<lambda>d. shape1 d = shape1 (hd example_dumps) \<and> well_shaped d) example_dumps"
    by (simp add: example_dumps_def well_shaped_def)
  have dl: "fst (data_len example_world example_reader) = 8"
    by (simp add: data_len_def example_reader_def)
  have t: "int (total_rows example_dumps) \<le> fst (data_len example_world example_reader)"
    unfolding dl by (simp add: total_rows_def example_dumps_def)
  have l: "int (length (fst (labels example_world example_reader)))
             = fst (data_len example_world example_reader)"
    unfolding dl by (simp add: labels_def example_reader_def example_labels_def)
  have sz: "(8 :: int) = (if (- 1 :: int) = - 1 then fst (data_len example_world example_reader)
                          else - 1)"
    unfolding dl by simp
  have rc: "random_choice example_world 8 = Inr [3, 0, 7, 1, 5, 2, 6, 4]"
    by (simp add: example_world_def)
  have d: "distinct [3, 0, 7, 1, 5, 2, 6, 4 :: int]" by simp
  have st: "set [3, 0, 7, 1, 5, 2, 6, 4 :: int] = {0..<8}" by auto
  have fm: "float_mul example_world (real_of_int 8) (9 / 10) = 72 / 10"
    by (simp add: example_world_def)
  have p: "0 \<le> float_mul example_world (real_of_int 8) (9 / 10)"
    unfolding fm by simp
  have k: "nat \<lfloor>float_mul example_world (real_of_int 8) (9 / 10)\<rfloor> = 7"
    unfolding fm by simp
  from create_data_split_partition[OF v f n sh t l sz rc d st p]
  show ?thesis unfolding k using f t rc by auto
qed

end
